theory Spec2Isabelle
  imports Complex_Main "HOL-Library.List_Lexorder" "HOL-Library.AList"
begin

section \<open>Python values: errors, the random generator, expression trees\<close>

text \<open>
  Exceptions are values: every routine that can throw returns \<open>error + 'a\<close>, with the
  exception in \<open>Inl\<close>.  Only the exception classes that the code raises or catches by name
  are told apart; \<open>OtherError\<close> stands for any other exception class.
\<close>

datatype error =
    ValueError string
  | TypeError string
  | IndexError string
  | ZeroDivisionError string
  | OtherError string

text \<open>
  Python's module-level generator is global state.  It is modelled as the sequence of the
  uniform draws from \<open>[0, 1)\<close> that it will still produce; \<open>random.random()\<close> takes the
  first one.  Floating-point numbers are modelled as reals throughout.
\<close>

type_synonym rng = "nat \<Rightarrow> real"

definition random :: "rng \<Rightarrow> real \<times> rng" where
  "random g = (g 0, \<lambda>n. g (Suc n))"

text \<open>
  \<open>random.randint(a, b)\<close>: an integer of \<open>[a, b]\<close> chosen by the generator; an empty
  range raises \<open>ValueError\<close>.
\<close>

definition randint :: "int \<Rightarrow> int \<Rightarrow> rng \<Rightarrow> (error + int) \<times> rng" where
  "randint a b g =
     (if b < a then (Inl (ValueError ''empty range for randrange()''), g)
      else (let (u, g') = random g in (Inr (a + \<lfloor>u * real_of_int (b - a + 1)\<rfloor>), g')))"

text \<open>
  An expression tree of the tree-evolution engine: a node (primitive or terminal) with its
  argument subtrees.  \<open>len\<close> of a tree is its number of nodes, \<open>height\<close> the depth of its
  deepest node (a single node has height 0).
\<close>

datatype tree = Node string "tree list"

fun height :: "tree \<Rightarrow> nat" where
  "height (Node s []) = 0"
| "height (Node s (c # cs)) = Suc (fold max (map height cs) (height c))"

fun len :: "tree \<Rightarrow> nat" where
  "len (Node s cs) = Suc (sum_list (map len cs))"

section \<open>configure\_DEAP: the randomized operators\<close>

text \<open>
  The operators of \<open>deap.gp\<close> are external; they are parameters of the model.  Each
  one reads the global generator, so it takes and returns the generator.
\<close>

record gp_ops =
  cxOnePoint :: "tree \<Rightarrow> tree \<Rightarrow> rng \<Rightarrow> (tree \<times> tree) \<times> rng"
  cxOnePointLeafBiased :: "tree \<Rightarrow> tree \<Rightarrow> real \<Rightarrow> rng \<Rightarrow> (tree \<times> tree) \<times> rng"
  mutInsert :: "tree \<Rightarrow> rng \<Rightarrow> tree \<times> rng"
  mutShrink :: "tree \<Rightarrow> rng \<Rightarrow> tree \<times> rng"
  mutNodeReplacement :: "tree \<Rightarrow> rng \<Rightarrow> tree \<times> rng"
  genHalfAndHalf :: "nat \<Rightarrow> int \<Rightarrow> rng \<Rightarrow> tree \<times> rng"

text \<open>
  The \<open>if\<close>/\<open>elif\<close> chains of \<open>_random_mating_operator\<close> and
  \<open>_random_mutation_operator\<close>, as the choice of the operator that the roll selects.
  A roll that no branch accepts falls through: the Python function returns \<open>None\<close>.
\<close>

datatype mating_choice = CxOnePoint | CxOnePointLeafBiased

datatype mutation_choice = MutInsert | MutShrink | MutNodeReplacement

definition mating_branch :: "real \<Rightarrow> mating_choice option" where
  "mating_branch roll =
     (if roll < 0.5 then Some CxOnePoint
      else if roll < 1.5 then Some CxOnePointLeafBiased
      else None)"

definition mutation_branch :: "real \<Rightarrow> mutation_choice option" where
  "mutation_branch roll =
     (if roll < 0.5 then Some MutInsert
      else if roll < 0.66 then Some MutShrink
      else if roll < 2.66 then Some MutNodeReplacement
      else None)"

definition random_mating_operator ::
  "gp_ops \<Rightarrow> tree \<Rightarrow> tree \<Rightarrow> rng \<Rightarrow> (tree \<times> tree) option \<times> rng" where
  "random_mating_operator G ind1 ind2 g =
     (let (roll, g1) = random g in
      case mating_branch roll of
        Some CxOnePoint \<Rightarrow>
          (let (r, g2) = cxOnePoint G ind1 ind2 g1 in (Some r, g2))
      | Some CxOnePointLeafBiased \<Rightarrow>
          (let (r, g2) = cxOnePointLeafBiased G ind1 ind2 0.5 g1 in (Some r, g2))
      | None \<Rightarrow> (None, g1))"

definition random_mutation_operator ::
  "gp_ops \<Rightarrow> tree \<Rightarrow> rng \<Rightarrow> tree option \<times> rng" where
  "random_mutation_operator G individual g =
     (let (roll, g1) = random g in
      case mutation_branch roll of
        Some MutInsert \<Rightarrow> (let (r, g2) = mutInsert G individual g1 in (Some r, g2))
      | Some MutShrink \<Rightarrow> (let (r, g2) = mutShrink G individual g1 in (Some r, g2))
      | Some MutNodeReplacement \<Rightarrow>
          (let (r, g2) = mutNodeReplacement G individual g1 in (Some r, g2))
      | None \<Rightarrow> (None, g1))"

text \<open>
  Modelled from the spec: \<open>gp.staticLimit\<close> belongs to the tree-evolution engine and is not
  under src/.  The spec: an operator result that exceeds the maximum height is rejected and
  the pre-operation parent tree for that subtree is returned in its place.
\<close>

definition staticLimit :: "('t \<Rightarrow> nat) \<Rightarrow> nat \<Rightarrow> 't \<Rightarrow> 't \<Rightarrow> 't" where
  "staticLimit key max_value parent new = (if key new > max_value then parent else new)"

text \<open>
  The registered \<open>toolbox.mate\<close> and \<open>toolbox.mutate\<close>: the randomized operator under
  \<open>history.decorator\<close> (bookkeeping of ancestry, which returns the operator's result as it
  is) and under \<open>staticLimit(key=height, max_value=2)\<close>.  The decorator iterates over the
  operator's result, which raises \<open>TypeError\<close> on \<open>None\<close>.
\<close>

definition mate :: "gp_ops \<Rightarrow> tree \<Rightarrow> tree \<Rightarrow> rng \<Rightarrow> (error + tree \<times> tree) \<times> rng" where
  "mate G ind1 ind2 g =
     (case random_mating_operator G ind1 ind2 g of
        (None, g') \<Rightarrow> (Inl (TypeError ''NoneType object is not iterable''), g')
      | (Some (new1, new2), g') \<Rightarrow>
          (Inr (staticLimit height 2 ind1 new1, staticLimit height 2 ind2 new2), g'))"

definition mutate :: "gp_ops \<Rightarrow> tree \<Rightarrow> rng \<Rightarrow> (error + tree) \<times> rng" where
  "mutate G individual g =
     (case random_mutation_operator G individual g of
        (None, g') \<Rightarrow> (Inl (TypeError ''NoneType object is not iterable''), g')
      | (Some new, g') \<Rightarrow> (Inr (staticLimit height 2 individual new), g'))"

section \<open>configure\_DEAP: renaming the argument slots\<close>

text \<open>\<open>"{}".format(n)\<close> for a non-negative integer: its decimal digits.\<close>

definition digit :: "nat \<Rightarrow> char" where
  "digit d = ''0123456789'' ! d"

fun str_nat :: "nat \<Rightarrow> string" where
  "str_nat n = (if n < 10 then [digit n] else str_nat (n div 10) @ [digit (n mod 10)])"

declare str_nat.simps [simp del]

definition ARG :: "nat \<Rightarrow> string" where
  "ARG n = ''ARG'' @ str_nat n"

definition x_name :: "nat \<Rightarrow> string" where
  "x_name n = ''x'' @ str_nat n"

text \<open>
  The dictionary \<open>argnames\<close> that \<open>_rename_args\<close> builds and hands to
  \<open>pset.renameArguments\<close>: an association list with one entry per key, a new key appended
  at the end, as a Python dict.  \<open>len(argnames)\<close> is its length.  The dictionary after
  the loop over the dimensions, after the loop over the constants, and at the call.
\<close>

definition argnames_dimensions :: "nat \<Rightarrow> (string \<times> string) list" where
  "argnames_dimensions dimensions =
     fold (\<lambda>dim argnames. AList.update (ARG dim) (x_name dim) argnames) [0..<dimensions] []"

definition argnames_constants :: "nat \<Rightarrow> nat \<Rightarrow> (string \<times> string) list" where
  "argnames_constants nc dimensions =
     fold (\<lambda>i argnames. AList.update (ARG (i + dimensions)) (x_name i) argnames) [0..<nc]
       (argnames_dimensions dimensions)"

definition rename_args :: "nat \<Rightarrow> nat \<Rightarrow> bool \<Rightarrow> (string \<times> string) list" where
  "rename_args nc dimensions is_time_dependent =
     (let argnames = argnames_constants nc dimensions
      in if is_time_dependent then AList.update (ARG (length argnames)) ''t'' argnames
         else argnames)"

section \<open>evalSymbReg: the fitness evaluator\<close>

text \<open>
  A data array is time-major: one row per sample.  \<open>x_dot_train\<close> is optional;
  \<open>time_rec_obs\<close> is \<open>None\<close>, a float (the time step) or an array of sample times.
\<close>

type_synonym array = "real list list"

datatype time_arg = TNone | TStep real | TArray "real list"

definition is_float :: "time_arg \<Rightarrow> bool" where
  "is_float t = (case t of TStep dt \<Rightarrow> True | _ \<Rightarrow> False)"

text \<open>
  The services that the evaluator calls: \<open>toolbox.compile\<close> and the system-identification
  engine (the constructors \<open>ps.CustomLibrary\<close> and \<open>ps.SINDy\<close> with the caller's
  \<open>sindy_kwargs\<close>, \<open>model.fit\<close>, \<open>model.score\<close> with the caller's metric and its keyword
  arguments, \<open>model.coefficients\<close>).  They are external, so they are parameters; each may
  throw.  \<open>'f\<close> is the type of a compiled function, \<open>'m\<close> the type of a model.
\<close>

record ('f, 'm) services =
  compile :: "tree \<Rightarrow> error + 'f"
  SINDy :: "'f list \<Rightarrow> error + 'm"
  fit_model :: "'m \<Rightarrow> array \<Rightarrow> time_arg \<Rightarrow> array option \<Rightarrow> error + 'm"
  score_model :: "'m \<Rightarrow> array \<Rightarrow> time_arg \<Rightarrow> array option \<Rightarrow> error + real"
  coefficients :: "'m \<Rightarrow> array"

text \<open>
  The calls into the services are recorded in the order in which they are made: a
  computation is the list of the calls made so far with the exception or the value.
\<close>

datatype call =
    Compile tree
  | Construct
  | Fit array time_arg "array option"
  | Score array time_arg "array option"
  | Coefficients

type_synonym 'a comp = "call list \<times> (error + 'a)"

definition ret :: "'a \<Rightarrow> 'a comp" where
  "ret a = ([], Inr a)"

definition throw :: "error \<Rightarrow> 'a comp" where
  "throw e = ([], Inl e)"

definition calling :: "call \<Rightarrow> error + 'a \<Rightarrow> 'a comp" where
  "calling c r = ([c], r)"

definition bind :: "'a comp \<Rightarrow> ('a \<Rightarrow> 'b comp) \<Rightarrow> 'b comp" where
  "bind m f =
     (case m of
        (cs, Inl e) \<Rightarrow> (cs, Inl e)
      | (cs, Inr a) \<Rightarrow> (case f a of (cs', r) \<Rightarrow> (cs @ cs', r)))"

definition validate_input :: "array \<Rightarrow> unit comp" where
  "validate_input x_train =
     (if length x_train < 3 then throw (ValueError ''x_train shall have at least 3 timepounts!'')
      else ret ())"

text \<open>The loop of \<open>create_sindy_model\<close> over \<open>range(ntrees)\<close>, then the constructors.\<close>

fun compile_trees :: "('f, 'm) services \<Rightarrow> tree list \<Rightarrow> nat list \<Rightarrow> 'f list comp" where
  "compile_trees E individual [] = ret []"
| "compile_trees E individual (i # is) =
     (if length individual \<le> i then throw (IndexError ''list index out of range'')
      else bind (calling (Compile (individual ! i)) (compile E (individual ! i))) (\<lambda>f.
           bind (compile_trees E individual is) (\<lambda>fs. ret (f # fs))))"

definition create_sindy_model :: "('f, 'm) services \<Rightarrow> tree list \<Rightarrow> nat \<Rightarrow> 'm comp" where
  "create_sindy_model E individual ntrees =
     bind (compile_trees E individual [0..<ntrees]) (\<lambda>sr_functions.
       calling Construct (SINDy E sr_functions))"

definition fit_sindy_model ::
  "('f, 'm) services \<Rightarrow> 'm \<Rightarrow> array \<Rightarrow> array option \<Rightarrow> time_arg \<Rightarrow> 'm comp" where
  "fit_sindy_model E model x_train x_dot_train time_rec_obs =
     calling (Fit x_train time_rec_obs x_dot_train) (fit_model E model x_train time_rec_obs x_dot_train)"

definition score_sindy_model ::
  "('f, 'm) services \<Rightarrow> 'm \<Rightarrow> array \<Rightarrow> time_arg \<Rightarrow> array option \<Rightarrow> ('m \<times> real) comp" where
  "score_sindy_model E model x_train time_rec_obs x_dot_train =
     bind (calling (Score x_train time_rec_obs x_dot_train)
             (score_model E model x_train time_rec_obs x_dot_train))
       (\<lambda>fitness. ret (model, fitness))"

text \<open>
  \<open>int(r)\<close> truncates towards zero.  A slice bound \<open>k\<close> of a sequence of length \<open>n\<close>
  counts from the end when it is negative and is clipped to \<open>[0, n]\<close>.
\<close>

definition py_int :: "real \<Rightarrow> int" where
  "py_int r = (if 0 \<le> r then \<lfloor>r\<rfloor> else \<lceil>r\<rceil>)"

definition slice_bound :: "int \<Rightarrow> nat \<Rightarrow> nat" where
  "slice_bound k n = (if k < 0 then nat (int n + k) else min (nat k) n)"

text \<open>
  The lambda \<open>split\<close> on a sequence, on an optional array and on \<open>time_rec_obs\<close>; a float
  has no \<open>len\<close>.
\<close>

definition split :: "'a list \<Rightarrow> real \<Rightarrow> 'a list \<times> 'a list" where
  "split x ratio =
     (take (slice_bound (py_int (ratio * real (length x))) (length x)) x,
      drop (slice_bound (py_int (ratio * real (length x))) (length x)) x)"

definition split_opt :: "array option \<Rightarrow> real \<Rightarrow> array option \<times> array option" where
  "split_opt x ratio =
     (case x of None \<Rightarrow> (None, None)
      | Some a \<Rightarrow> (Some (fst (split a ratio)), Some (snd (split a ratio))))"

definition split_time :: "time_arg \<Rightarrow> real \<Rightarrow> (time_arg \<times> time_arg) comp" where
  "split_time t ratio =
     (case t of
        TNone \<Rightarrow> ret (TNone, TNone)
      | TStep dt \<Rightarrow> throw (TypeError ''object of type float has no len()'')
      | TArray a \<Rightarrow> ret (TArray (fst (split a ratio)), TArray (snd (split a ratio))))"

definition fit_and_score ::
  "('f, 'm) services \<Rightarrow> 'm \<Rightarrow> array \<Rightarrow> array option \<Rightarrow> time_arg \<Rightarrow> real option
     \<Rightarrow> ('m \<times> real) comp" where
  "fit_and_score E model x_train x_dot_train time_rec_obs tr_te_ratio =
     (case tr_te_ratio of
        Some ratio \<Rightarrow>
          (let (x_train_tr, x_train_te) = split x_train ratio;
               (x_dot_train_tr, x_dot_train_te) = split_opt x_dot_train ratio
           in bind (split_time time_rec_obs ratio) (\<lambda>(time_tr, time_te).
              bind (fit_sindy_model E model x_train_tr x_dot_train_tr time_tr) (\<lambda>model.
                score_sindy_model E model x_train_te time_te x_dot_train_te)))
      | None \<Rightarrow>
          bind (fit_sindy_model E model x_train x_dot_train time_rec_obs) (\<lambda>model.
            score_sindy_model E model x_train time_rec_obs x_dot_train))"

text \<open>
  \<open>np.split(a, n)\<close> of a flat array into \<open>n\<close> sections of equal length: the length modulo
  \<open>n\<close> is taken first, and an unequal division raises.
\<close>

definition np_split :: "real list \<Rightarrow> nat \<Rightarrow> error + real list list" where
  "np_split a n =
     (if n = 0 then Inl (ZeroDivisionError ''integer modulo by zero'')
      else if length a mod n \<noteq> 0
        then Inl (ValueError ''array split does not result in an equal division'')
      else Inr (map (\<lambda>i. take (length a div n) (drop (i * (length a div n)) a)) [0..<n]))"

text \<open>The loop that counts the nodes of the subtrees whose coefficients are not all zero.\<close>

fun count_nodes :: "real list list \<Rightarrow> tree list \<Rightarrow> nat list \<Rightarrow> nat \<Rightarrow> error + nat" where
  "count_nodes ind_coefs_list individual [] n_nodes = Inr n_nodes"
| "count_nodes ind_coefs_list individual (i # is) n_nodes =
     (if length ind_coefs_list \<le> i then Inl (IndexError ''list index out of range'')
      else if list_all (\<lambda>c. c = 0) (ind_coefs_list ! i)
        then count_nodes ind_coefs_list individual is n_nodes
      else if length individual \<le> i then Inl (IndexError ''list index out of range'')
      else count_nodes ind_coefs_list individual is (n_nodes + len (individual ! i)))"

text \<open>
  The sparsity penalty: \<open>model.coefficients().T.reshape(-1)\<close> is the row-major flattening of
  the transposed coefficient matrix.
\<close>

definition sparsity_penalty ::
  "('f, 'm) services \<Rightarrow> 'm \<Rightarrow> tree list \<Rightarrow> nat \<Rightarrow> int \<Rightarrow> real comp" where
  "sparsity_penalty E model individual ntrees max_depth =
     bind (calling Coefficients (np_split (concat (transpose (coefficients E model))) ntrees))
       (\<lambda>ind_coefs_list.
     bind ([], count_nodes ind_coefs_list individual [0..<ntrees] 0) (\<lambda>n_nodes.
       ret (real n_nodes / (power_int 2 (1 + max_depth) * real ntrees))))"

datatype 'm eval_result = Fitness "real list" | Model 'm

definition evalSymbReg ::
  "('f, 'm) services \<Rightarrow> tree list \<Rightarrow> nat \<Rightarrow> int \<Rightarrow> array \<Rightarrow> array option \<Rightarrow> time_arg
     \<Rightarrow> bool \<Rightarrow> real option \<Rightarrow> string \<Rightarrow> 'm eval_result comp" where
  "evalSymbReg E individual ntrees max_depth x_train x_dot_train time_rec_obs
       flag_solution tr_te_ratio sparsity =
     bind (validate_input x_train) (\<lambda>_.
     bind (create_sindy_model E individual ntrees) (\<lambda>model.
     bind (fit_and_score E model x_train x_dot_train time_rec_obs tr_te_ratio)
       (\<lambda>(model, fitness).
     bind (if sparsity = ''n_zero_nodes''
           then bind (sparsity_penalty E model individual ntrees max_depth)
                  (\<lambda>penalty. ret (fitness - penalty))
           else ret fitness) (\<lambda>fitness.
       if \<not> flag_solution then ret (Fitness [fitness]) else ret (Model model)))))"

section \<open>Individuals and their fitness\<close>

text \<open>
  Modelled from the spec: \<open>deap.base.Fitness\<close>, \<open>tools.selTournament\<close>,
  \<open>tools.HallOfFame\<close> and \<open>tools.initRepeat\<close> belong to the tree-evolution engine and are
  not under src/.  An individual is its list of subtrees with a fitness record; the record
  holds the values multiplied by the weights, is invalid while it holds none, and two
  records compare as the tuples of their weighted values.  The weights are those that
  \<open>_create_toolbox\<close> gives to \<open>FitnessMax\<close>.
\<close>

record individual =
  trees :: "tree list"
  wvalues :: "real list"

definition FitnessMax_weights :: "real list" where
  "FitnessMax_weights = [1.0]"

definition set_values :: "real list \<Rightarrow> real list \<Rightarrow> real list" where
  "set_values weights values = map2 (*) values weights"

definition valid :: "individual \<Rightarrow> bool" where
  "valid ind = (wvalues ind \<noteq> [])"

definition fitness_gt :: "individual \<Rightarrow> individual \<Rightarrow> bool" where
  "fitness_gt a b = (\<not> wvalues a \<le> wvalues b)"

text \<open>
  Tournament selection with tournament size 2, with replacement: the aspirant of greater
  fitness wins, the first one on a tie.
\<close>

definition choice :: "'a list \<Rightarrow> rng \<Rightarrow> (error + 'a) \<times> rng" where
  "choice xs g =
     (if xs = [] then (Inl (IndexError ''Cannot choose from an empty sequence''), g)
      else (let (u, g') = random g
            in (Inr (xs ! (nat \<lfloor>u * real (length xs)\<rfloor> mod length xs)), g')))"

definition tournament :: "individual \<Rightarrow> individual \<Rightarrow> individual" where
  "tournament a b = (if fitness_gt b a then b else a)"

fun selTournament :: "individual list \<Rightarrow> nat \<Rightarrow> rng \<Rightarrow> (error + individual list) \<times> rng" where
  "selTournament individuals 0 g = (Inr [], g)"
| "selTournament individuals (Suc k) g =
     (case choice individuals g of
        (Inl e, g1) \<Rightarrow> (Inl e, g1)
      | (Inr a, g1) \<Rightarrow>
     (case choice individuals g1 of
        (Inl e, g2) \<Rightarrow> (Inl e, g2)
      | (Inr b, g2) \<Rightarrow>
     (case selTournament individuals k g2 of
        (Inl e, g3) \<Rightarrow> (Inl e, g3)
      | (Inr chosen, g3) \<Rightarrow> (Inr (tournament a b # chosen), g3))))"

text \<open>The hall of fame of capacity 1: the best individual seen so far, by fitness.\<close>

fun halloffame_update :: "individual list \<Rightarrow> individual list \<Rightarrow> individual list" where
  "halloffame_update hof [] = hof"
| "halloffame_update hof (ind # inds) =
     halloffame_update
       (case hof of [] \<Rightarrow> [ind] | best # _ \<Rightarrow> if fitness_gt ind best then [ind] else hof) inds"

text \<open>
  \<open>toolbox.population(n)\<close>: \<open>n\<close> individuals of \<open>ntrees\<close> random subtrees each, with
  invalid fitness.
\<close>

fun init_individual :: "gp_ops \<Rightarrow> int \<Rightarrow> nat \<Rightarrow> rng \<Rightarrow> tree list \<times> rng" where
  "init_individual G max_depth 0 g = ([], g)"
| "init_individual G max_depth (Suc n) g =
     (let (t, g1) = genHalfAndHalf G 0 max_depth g;
          (ts, g2) = init_individual G max_depth n g1
      in (t # ts, g2))"

fun init_population :: "gp_ops \<Rightarrow> int \<Rightarrow> nat \<Rightarrow> nat \<Rightarrow> rng \<Rightarrow> individual list \<times> rng" where
  "init_population G max_depth ntrees 0 g = ([], g)"
| "init_population G max_depth ntrees (Suc n) g =
     (let (ts, g1) = init_individual G max_depth ntrees g;
          (inds, g2) = init_population G max_depth ntrees n g1
      in (\<lparr>trees = ts, wvalues = []\<rparr> # inds, g2))"

section \<open>my\_eaSimple: the generational loop\<close>

text \<open>
  The two loops of \<open>_my_varAnd\<close>.  The offspring are deep copies, so the list of
  individuals is passed along and returned updated.  Beside it the loops keep the indices
  of the individuals at which a \<open>del ... .fitness.values\<close> statement was reached: these are
  the individuals that crossover or mutation touched.
\<close>

definition set_tree :: "individual \<Rightarrow> nat \<Rightarrow> tree \<Rightarrow> individual" where
  "set_tree ind h t = ind\<lparr>trees := (trees ind)[h := t]\<rparr>"

definition del_fitness_values :: "individual \<Rightarrow> individual" where
  "del_fitness_values ind = ind\<lparr>wvalues := []\<rparr>"

type_synonym var_state = "individual list \<times> nat list"

fun cx_loop ::
  "gp_ops \<Rightarrow> real \<Rightarrow> nat \<Rightarrow> nat list \<Rightarrow> var_state \<Rightarrow> rng \<Rightarrow> (error + var_state) \<times> rng" where
  "cx_loop G cxpb ntrees [] st g = (Inr st, g)"
| "cx_loop G cxpb ntrees (i # is) (offspring, touched) g =
     (let (roll, g1) = random g in
      if roll < cxpb then
        (case randint 0 (int ntrees - 1) g1 of
           (Inl e, g2) \<Rightarrow> (Inl e, g2)
         | (Inr h_component, g2) \<Rightarrow>
             (let h = nat h_component; ind1 = offspring ! (i - 1); ind2 = offspring ! i in
              if length (trees ind1) \<le> h \<or> length (trees ind2) \<le> h
              then (Inl (IndexError ''list index out of range''), g2)
              else
                (case mate G (trees ind1 ! h) (trees ind2 ! h) g2 of
                   (Inl e, g3) \<Rightarrow> (Inl e, g3)
                 | (Inr (new1, new2), g3) \<Rightarrow>
                     cx_loop G cxpb ntrees is
                       (offspring[i - 1 := del_fitness_values (set_tree ind1 h new1),
                                  i := del_fitness_values (set_tree ind2 h new2)],
                        i # (i - 1) # touched) g3)))
      else cx_loop G cxpb ntrees is (offspring, touched) g1)"

fun mut_loop ::
  "gp_ops \<Rightarrow> real \<Rightarrow> (nat \<times> nat) list \<Rightarrow> var_state \<Rightarrow> rng \<Rightarrow> (error + var_state) \<times> rng" where
  "mut_loop G mutpb [] st g = (Inr st, g)"
| "mut_loop G mutpb ((i, h_component) # ps) (offspring, touched) g =
     (let (roll, g1) = random g in
      if roll < mutpb then
        (let ind = offspring ! i in
         if length (trees ind) \<le> h_component
         then (Inl (IndexError ''list index out of range''), g1)
         else
           (case mutate G (trees ind ! h_component) g1 of
              (Inl e, g2) \<Rightarrow> (Inl e, g2)
            | (Inr new, g2) \<Rightarrow>
                mut_loop G mutpb ps
                  (offspring[i := del_fitness_values (set_tree ind h_component new)],
                   i # touched) g2))
      else mut_loop G mutpb ps (offspring, touched) g1)"

text \<open>
  \<open>range(1, len(offspring), 2)\<close> is the odd indices; the mutation loop runs over the
  individuals and, inside, over \<open>range(ntrees)\<close>.
\<close>

definition my_varAnd ::
  "gp_ops \<Rightarrow> real \<Rightarrow> real \<Rightarrow> nat \<Rightarrow> individual list \<Rightarrow> rng \<Rightarrow> (error + var_state) \<times> rng" where
  "my_varAnd G cxpb mutpb ntrees population g =
     (let offspring = population in
      case cx_loop G cxpb ntrees (filter odd [0..<length offspring]) (offspring, []) g of
        (Inl e, g1) \<Rightarrow> (Inl e, g1)
      | (Inr st, g1) \<Rightarrow>
          mut_loop G mutpb (List.product [0..<length offspring] [0..<ntrees]) st g1)"

text \<open>
  The evaluation phase: \<open>toolbox.evaluate\<close> is mapped over the individuals whose fitness
  is invalid and each result is stored in the individual it was computed for.  The
  individuals are distinct objects, so the three statements are one pass over the list.
\<close>

fun evaluate_invalid ::
  "(tree list \<Rightarrow> 'm eval_result comp) \<Rightarrow> individual list \<Rightarrow> individual list comp" where
  "evaluate_invalid ev [] = ret []"
| "evaluate_invalid ev (ind # inds) =
     (if valid ind then bind (evaluate_invalid ev inds) (\<lambda>rest. ret (ind # rest))
      else bind (ev (trees ind)) (\<lambda>fit.
        case fit of
          Fitness values \<Rightarrow>
            bind (evaluate_invalid ev inds) (\<lambda>rest.
              ret (ind\<lparr>wvalues := set_values FitnessMax_weights values\<rparr> # rest))
        | Model m \<Rightarrow> throw (TypeError ''object is not iterable'')))"

text \<open>
  A logbook entry: the generation, \<open>nevals\<close> and the statistics record.  \<open>stats\<close> is
  optional and external (\<open>stats.compile\<close> may throw).
\<close>

type_synonym 'r logbook = "(nat \<times> nat \<times> 'r option) list"

definition compile_stats ::
  "(individual list \<Rightarrow> error + 'r) option \<Rightarrow> individual list \<Rightarrow> 'r option comp" where
  "compile_stats stats population =
     (case stats of
        None \<Rightarrow> ret None
      | Some f \<Rightarrow> bind ([], f population) (\<lambda>r. ret (Some r)))"

definition nevals :: "individual list \<Rightarrow> nat" where
  "nevals population = length (filter (\<lambda>ind. \<not> valid ind) population)"

type_synonym 'r ea_state = "individual list \<times> 'r logbook \<times> individual list"

text \<open>
  One generation and the loop over \<open>range(1, ngen + 1)\<close>.  The hall of fame is always
  given (as \<open>fit\<close> does) and \<open>verbose\<close> is off.
\<close>

fun generations ::
  "gp_ops \<Rightarrow> (tree list \<Rightarrow> 'm eval_result comp) \<Rightarrow> real \<Rightarrow> real \<Rightarrow> nat
     \<Rightarrow> (individual list \<Rightarrow> error + 'r) option \<Rightarrow> nat list \<Rightarrow> 'r ea_state \<Rightarrow> rng
     \<Rightarrow> 'r ea_state comp \<times> rng" where
  "generations G ev cxpb mutpb ntrees stats [] st g = (ret st, g)"
| "generations G ev cxpb mutpb ntrees stats (gen # gens) (population, logbook, halloffame) g =
     (case selTournament population (length population) g of
        (Inl e, g1) \<Rightarrow> (throw e, g1)
      | (Inr offspring, g1) \<Rightarrow>
     (case my_varAnd G cxpb mutpb ntrees offspring g1 of
        (Inl e, g2) \<Rightarrow> (throw e, g2)
      | (Inr (offspring, touched), g2) \<Rightarrow>
     (case bind (evaluate_invalid ev offspring) (\<lambda>evaluated.
             bind (compile_stats stats evaluated) (\<lambda>rec. ret (evaluated, rec))) of
        (cs, Inl e) \<Rightarrow> ((cs, Inl e), g2)
      | (cs, Inr (evaluated, rec)) \<Rightarrow>
     (case generations G ev cxpb mutpb ntrees stats gens
             (evaluated, logbook @ [(gen, nevals offspring, rec)],
              halloffame_update halloffame evaluated) g2 of
        ((cs', r), g3) \<Rightarrow> ((cs @ cs', r), g3)))))"

definition my_eaSimple ::
  "gp_ops \<Rightarrow> (tree list \<Rightarrow> 'm eval_result comp) \<Rightarrow> individual list \<Rightarrow> real \<Rightarrow> real \<Rightarrow> nat
     \<Rightarrow> nat \<Rightarrow> (individual list \<Rightarrow> error + 'r) option \<Rightarrow> individual list \<Rightarrow> rng
     \<Rightarrow> 'r ea_state comp \<times> rng" where
  "my_eaSimple G ev population cxpb mutpb ngen ntrees stats halloffame g =
     (case bind (evaluate_invalid ev population) (\<lambda>evaluated.
             bind (compile_stats stats evaluated) (\<lambda>rec. ret (evaluated, rec))) of
        (cs, Inl e) \<Rightarrow> ((cs, Inl e), g)
      | (cs, Inr (evaluated, rec)) \<Rightarrow>
     (case generations G ev cxpb mutpb ntrees stats [1..<ngen + 1]
             (evaluated, [(0, nevals population, rec)],
              halloffame_update halloffame evaluated) g of
        ((cs', r), g') \<Rightarrow> ((cs @ cs', r), g')))"

section \<open>SymINDy.fit and SymINDy.score\<close>

record SymINDy =
  self_ngen :: nat
  self_ntrees :: nat
  self_mutpb :: real
  self_cxpb :: real
  self_dims :: nat
  self_nc :: nat
  self_n_individuals :: nat
  self_sparsity :: string

record ('r, 'm) fitted =
  fitted_population :: "individual list"
  fitted_log :: "'r logbook"
  fitted_hof :: "individual list"
  final_model :: "'m eval_result"

text \<open>
  \<open>fit\<close> calls \<open>configure_DEAP\<close> without \<open>max_depth\<close>, so \<open>self.max_depth\<close> is 2.  Both
  registered functions are \<open>evalSymbReg\<close> with the same arguments but \<open>flag_solution\<close>.
\<close>

definition evaluate ::
  "SymINDy \<Rightarrow> ('f, 'm) services \<Rightarrow> array \<Rightarrow> array option \<Rightarrow> time_arg \<Rightarrow> tree list
     \<Rightarrow> 'm eval_result comp" where
  "evaluate self E x_train x_dot_train time_rec_obs individual =
     evalSymbReg E individual (self_ntrees self) 2 x_train x_dot_train time_rec_obs
       False (Some 0.8) (self_sparsity self)"

definition retrieve_model ::
  "SymINDy \<Rightarrow> ('f, 'm) services \<Rightarrow> array \<Rightarrow> array option \<Rightarrow> time_arg \<Rightarrow> tree list
     \<Rightarrow> 'm eval_result comp" where
  "retrieve_model self E x_train x_dot_train time_rec_obs individual =
     evalSymbReg E individual (self_ntrees self) 2 x_train x_dot_train time_rec_obs
       True (Some 0.8) (self_sparsity self)"

definition fit ::
  "SymINDy \<Rightarrow> gp_ops \<Rightarrow> ('f, 'm) services \<Rightarrow> (individual list \<Rightarrow> error + 'r) option
     \<Rightarrow> array \<Rightarrow> array option \<Rightarrow> time_arg \<Rightarrow> rng \<Rightarrow> ('r, 'm) fitted comp \<times> rng" where
  "fit self G E mstats x_train x_dot_train time_rec_obs g =
     (let (pop, g1) = init_population G 2 (self_ntrees self) (self_n_individuals self) g in
      case my_eaSimple G (evaluate self E x_train x_dot_train time_rec_obs) pop
             (self_cxpb self) (self_mutpb self) (self_ngen self) (self_ntrees self) mstats [] g1 of
        ((cs, Inl e), g2) \<Rightarrow> ((cs, Inl e), g2)
      | ((cs, Inr (pop, logbook, halloffame)), g2) \<Rightarrow>
          (case bind (case halloffame of
                        [] \<Rightarrow> throw (IndexError ''list index out of range'')
                      | best # _ \<Rightarrow>
                          retrieve_model self E x_train x_dot_train time_rec_obs (trees best))
                  (\<lambda>model.
                     ret \<lparr>fitted_population = pop, fitted_log = logbook, fitted_hof = halloffame,
                          final_model = model\<rparr>) of
             (cs', r) \<Rightarrow> ((cs @ cs', r), g2)))"


section \<open>The relation between the states of the variation loops\<close>

text \<open>
  What every step of the two loops of \<open>_my_varAnd\<close> keeps between the state before and
  the state after: the number of individuals, the touched indices recorded so far, the
  invalidity of a fitness, that a newly touched individual has an invalid fitness, and
  that an individual that is not touched is unchanged.
\<close>

definition variation_inv :: "var_state \<Rightarrow> var_state \<Rightarrow> bool" where
  "variation_inv st st' =
     (length (fst st') = length (fst st)
      \<and> set (snd st) \<subseteq> set (snd st')
      \<and> (\<forall>i<length (fst st). \<not> valid (fst st ! i) \<longrightarrow> \<not> valid (fst st' ! i))
      \<and> (\<forall>i \<in> set (snd st'). i \<in> set (snd st) \<or> (i < length (fst st) \<and> \<not> valid (fst st' ! i)))
      \<and> (\<forall>i<length (fst st). i \<notin> set (snd st') \<longrightarrow> fst st' ! i = fst st ! i))"

section \<open>The spec's partition and penalty\<close>

text \<open>
  The spec's words for the split, to be compared with \<open>split\<close>: the train part is the
  first \<open>floor(ratio * n)\<close> samples of an array of \<open>n\<close> samples and the test part is the
  remainder.  An optional array and an array of sample times are partitioned likewise.
\<close>

definition train_part :: "real \<Rightarrow> 'a list \<Rightarrow> 'a list" where
  "train_part ratio x = take (nat \<lfloor>ratio * real (length x)\<rfloor>) x"

definition test_part :: "real \<Rightarrow> 'a list \<Rightarrow> 'a list" where
  "test_part ratio x = drop (nat \<lfloor>ratio * real (length x)\<rfloor>) x"

definition time_part :: "(real list \<Rightarrow> real list) \<Rightarrow> time_arg \<Rightarrow> time_arg" where
  "time_part part t = (case t of TArray a \<Rightarrow> TArray (part a) | TStep dt \<Rightarrow> TStep dt | TNone \<Rightarrow> TNone)"

text \<open>
  The spec's words for the penalty: the sum over the \<open>ntrees\<close> subtrees of 0 if all the
  coefficients of the subtree are zero and of the node count of the subtree otherwise,
  divided by \<open>2^(1+max_depth) * ntrees\<close>.
\<close>

definition retained_nodes :: "real list list \<Rightarrow> tree list \<Rightarrow> nat \<Rightarrow> nat" where
  "retained_nodes ind_coefs individual ntrees =
     sum_list (map (\<lambda>i. if \<forall>c \<in> set (ind_coefs ! i). c = 0 then 0 else len (individual ! i))
                 [0..<ntrees])"

definition penalty_spec :: "real list list \<Rightarrow> tree list \<Rightarrow> nat \<Rightarrow> int \<Rightarrow> real" where
  "penalty_spec ind_coefs individual ntrees max_depth =
     real (retained_nodes ind_coefs individual ntrees) / (power_int 2 (1 + max_depth) * real ntrees)"

section \<open>Sample inputs\<close>

text \<open>
  Concrete inputs at which the properties below are evaluated: a generator that always
  draws the same number and one that draws the numbers of a list and then zeros, operators of the tree-evolution engine (the crossovers exchange
  the two trees, \<open>mutInsert\<close> puts the tree under a new \<open>sin\<close> node, \<open>mutShrink\<close>
  replaces the tree by its first argument subtree), an engine whose model is the data it
  was fitted on and whose score is the number of samples scored (its coefficient matrix
  keeps the first of two features; a second engine zeroes both), and a metric that is the
  squared error of equally long arrays.
\<close>

definition const_rng :: "real \<Rightarrow> rng" where
  "const_rng u = (\<lambda>n. u)"

definition list_rng :: "real list \<Rightarrow> rng" where
  "list_rng us = (\<lambda>n. if n < length us then us ! n else 0)"

definition sample_ops :: gp_ops where
  "sample_ops =
     \<lparr>cxOnePoint = (\<lambda>a b g. ((b, a), g)),
      cxOnePointLeafBiased = (\<lambda>a b termpb g. ((b, a), g)),
      mutInsert = (\<lambda>t g. (Node ''sin'' [t], g)),
      mutShrink = (\<lambda>t g. (case t of Node s (c # cs) \<Rightarrow> c | _ \<Rightarrow> t, g)),
      mutNodeReplacement = (\<lambda>t g. (t, g)),
      genHalfAndHalf = (\<lambda>lo hi g. (Node ''x0'' [], g))\<rparr>"

definition leaf :: tree where
  "leaf = Node ''x0'' []"

definition tall :: tree where
  "tall = Node ''sin'' [Node ''sin'' [Node ''sin'' [Node ''x0'' []]]]"

definition sample_services :: "(tree, array) services" where
  "sample_services =
     \<lparr>compile = (\<lambda>t. Inr t),
      SINDy = (\<lambda>fs. Inr []),
      fit_model = (\<lambda>m x t xd. Inr x),
      score_model = (\<lambda>m x t xd. Inr (real (length x))),
      coefficients = (\<lambda>m. [[1, 0]])\<rparr>"

definition sample_self :: SymINDy where
  "sample_self =
     \<lparr>self_ngen = 0, self_ntrees = 1, self_mutpb = 0.8, self_cxpb = 0.7, self_dims = 1,
      self_nc = 0, self_n_individuals = 1, self_sparsity = ''n_nodes''\<rparr>"

definition zero_services :: "(tree, array) services" where
  "zero_services = sample_services\<lparr>coefficients := (\<lambda>m. [[0, 0]])\<rparr>"

definition ind_a :: individual where
  "ind_a = \<lparr>trees = [leaf], wvalues = [1]\<rparr>"

definition ind_b :: individual where
  "ind_b = \<lparr>trees = [leaf], wvalues = [2]\<rparr>"

definition ind_m :: individual where
  "ind_m = \<lparr>trees = [Node ''sin'' [leaf]], wvalues = []\<rparr>"

definition x2 :: array where
  "x2 = [[0], [1]]"

definition x10 :: array where
  "x10 = [[0], [1], [2], [3], [4], [5], [6], [7], [8], [9]]"


section \<open>Properties\<close>

lemmas comp_defs = bind_def ret_def throw_def calling_def

lemma random_const_rng [simp]: "random (const_rng u) = (u, const_rng u)"
  by (simp add: random_def const_rng_def)

subsection \<open>The randomized operators\<close>

lemma mutation_grid_insert:
  "length (filter (\<lambda>k. mutation_branch (real k / 100) = Some MutInsert) [0..<100]) = 50"
  by code_simp

lemma mutation_grid_shrink:
  "length (filter (\<lambda>k. mutation_branch (real k / 100) = Some MutShrink) [0..<100]) = 16"
  by code_simp

lemma mutation_grid_replace:
  "length (filter (\<lambda>k. mutation_branch (real k / 100) = Some MutNodeReplacement) [0..<100]) = 34"
  by code_simp

lemma mating_grid:
  "length (filter (\<lambda>k. mating_branch (real k / 100) = Some CxOnePoint) [0..<100]) = 50"
  by code_simp

text \<open>
  C10.  For every roll of \<open>[0, 1)\<close> the mating operator and the mutation operator each
  take a branch, so neither returns \<open>None\<close>.  The rolls that select the one-point crossover
  are those of \<open>[0, 0.5)\<close> and the leaf-biased one those of \<open>[0.5, 1)\<close>; insertion is
  selected on \<open>[0, 0.5)\<close>, shrinking on \<open>[0.5, 0.66)\<close> and node replacement on
  \<open>[0.66, 1)\<close>: intervals of lengths 0.5/0.5 and 0.5/0.16/0.34, the probabilities under a
  uniform roll.  On the grid of 100 equally spaced rolls the branches are taken 50/50 and
  50/16/34 times.
\<close>

theorem random_operators_take_one_branch:
  assumes "0 \<le> roll" "roll < 1" "g 0 = roll"
  shows "fst (random_mating_operator G ind1 ind2 g) \<noteq> None
    \<and> fst (random_mutation_operator G ind1 g) \<noteq> None
    \<and> (mating_branch roll = Some CxOnePoint \<longleftrightarrow> roll < 1/2)
    \<and> (mating_branch roll = Some CxOnePointLeafBiased \<longleftrightarrow> 1/2 \<le> roll)
    \<and> (mutation_branch roll = Some MutInsert \<longleftrightarrow> roll < 1/2)
    \<and> (mutation_branch roll = Some MutShrink \<longleftrightarrow> 1/2 \<le> roll \<and> roll < 1/2 + 16/100)
    \<and> (mutation_branch roll = Some MutNodeReplacement \<longleftrightarrow> 1 - 34/100 \<le> roll)
    \<and> length (filter (\<lambda>k. mating_branch (real k / 100) = Some CxOnePoint) [0..<100]) = 50
    \<and> length (filter (\<lambda>k. mutation_branch (real k / 100) = Some MutInsert) [0..<100]) = 50
    \<and> length (filter (\<lambda>k. mutation_branch (real k / 100) = Some MutShrink) [0..<100]) = 16
    \<and> length (filter (\<lambda>k. mutation_branch (real k / 100) = Some MutNodeReplacement) [0..<100]) = 34"
proof -
  have "fst (random_mating_operator G ind1 ind2 g) \<noteq> None"
    using assms
    by (auto simp: mating_branch_def random_mating_operator_def random_def split: prod.splits)
  moreover have "fst (random_mutation_operator G ind1 g) \<noteq> None"
    using assms
    by (auto simp: mutation_branch_def random_mutation_operator_def random_def split: prod.splits)
  moreover have "(mating_branch roll = Some CxOnePoint \<longleftrightarrow> roll < 1/2)
    \<and> (mating_branch roll = Some CxOnePointLeafBiased \<longleftrightarrow> 1/2 \<le> roll)"
    using assms by (auto simp: mating_branch_def)
  moreover have "(mutation_branch roll = Some MutInsert \<longleftrightarrow> roll < 1/2)
    \<and> (mutation_branch roll = Some MutShrink \<longleftrightarrow> 1/2 \<le> roll \<and> roll < 1/2 + 16/100)
    \<and> (mutation_branch roll = Some MutNodeReplacement \<longleftrightarrow> 1 - 34/100 \<le> roll)"
    using assms by (auto simp: mutation_branch_def)
  ultimately show ?thesis
    using mating_grid mutation_grid_insert mutation_grid_shrink mutation_grid_replace
    by simp
qed

theorem random_operators_take_one_branch_witness:
  "(0::real) \<le> 3/5 \<and> (3/5::real) < 1 \<and> const_rng (3/5) 0 = 3/5
   \<and> fst (random_mating_operator sample_ops leaf tall (const_rng (3/5))) = Some (tall, leaf)
   \<and> fst (random_mutation_operator sample_ops tall (const_rng (3/5))) =
       Some (Node ''sin'' [Node ''sin'' [Node ''x0'' []]])
   \<and> mating_branch (3/5) = Some CxOnePointLeafBiased
   \<and> mutation_branch (3/5) = Some MutShrink"
  using random_operators_take_one_branch [of "3/5" "const_rng (3/5)" sample_ops leaf tall]
  by (simp add: const_rng_def random_mating_operator_def random_mutation_operator_def
      random_def sample_ops_def tall_def leaf_def mating_branch_def mutation_branch_def)

subsection \<open>The height limit\<close>




subsection \<open>Input validation\<close>

lemma evalSymbReg_too_short:
  "length x_train < 3 \<Longrightarrow>
   evalSymbReg E individual ntrees max_depth x_train x_dot_train time_rec_obs flag tr sp =
     ([], Inl (ValueError ''x_train shall have at least 3 timepounts!''))"
  by (simp add: evalSymbReg_def validate_input_def comp_defs)

lemma evaluate_invalid_raises:
  assumes "\<And>ts. ev ts = ([], Inl e)" "\<exists>ind \<in> set pop. \<not> valid ind"
  shows "evaluate_invalid ev pop = ([], Inl e)"
  using assms(2)
proof (induction pop)
  case Nil
  then show ?case by simp
next
  case (Cons ind inds)
  show ?case
  proof (cases "valid ind")
    case True
    with Cons have "evaluate_invalid ev inds = ([], Inl e)" by auto
    with True show ?thesis by (simp add: comp_defs)
  next
    case False
    then show ?thesis by (simp add: comp_defs assms(1))
  qed
qed

lemma init_population_invalid:
  "init_population G md nt n g = (pop, g') \<Longrightarrow>
   length pop = n \<and> (\<forall>ind \<in> set pop. \<not> valid ind)"
  by (induction n arbitrary: g pop g') (auto simp: valid_def split: prod.splits)

lemma my_eaSimple_raises:
  assumes "\<And>ts. ev ts = ([], Inl e)" "\<exists>ind \<in> set pop. \<not> valid ind"
  shows "fst (my_eaSimple G ev pop cxpb mutpb ngen ntrees stats hof g) = ([], Inl e)"
  by (simp add: my_eaSimple_def evaluate_invalid_raises [OF assms] comp_defs)

text \<open>
  C3.  With fewer than 3 samples in \<open>x_train\<close> the evaluator raises the \<open>ValueError\<close> that
  names the precondition, and no call into the services has been made (the list of calls
  is empty: nothing compiled, no model constructed, no fit).  The driver does not catch
  it: \<open>my_eaSimple\<close> on a population with an individual to evaluate, and \<open>fit\<close> with at
  least one individual, end with this exception.
\<close>

theorem short_training_data_aborts:
  assumes "length x_train < 3"
  shows "evalSymbReg E individual ntrees max_depth x_train x_dot_train time_rec_obs flag tr sp =
           ([], Inl (ValueError ''x_train shall have at least 3 timepounts!''))
     \<and> ((\<exists>ind \<in> set pop. \<not> valid ind) \<longrightarrow>
          fst (my_eaSimple G (evaluate self E x_train x_dot_train time_rec_obs) pop cxpb mutpb ngen
                 ntrees stats hof g) =
           ([], Inl (ValueError ''x_train shall have at least 3 timepounts!'')))
     \<and> (0 < self_n_individuals self \<longrightarrow>
          fst (fit self G E stats x_train x_dot_train time_rec_obs g) =
           ([], Inl (ValueError ''x_train shall have at least 3 timepounts!'')))"
proof -
  let ?e = "ValueError ''x_train shall have at least 3 timepounts!''"
  have ev: "\<And>ts. evaluate self E x_train x_dot_train time_rec_obs ts = ([], Inl ?e)"
    by (simp add: evaluate_def evalSymbReg_too_short [OF assms])
  have fit: "fst (fit self G E stats x_train x_dot_train time_rec_obs g) = ([], Inl ?e)"
    if "0 < self_n_individuals self"
  proof -
    obtain pop0 g1 where
      ip: "init_population G 2 (self_ntrees self) (self_n_individuals self) g = (pop0, g1)"
      by (cases "init_population G 2 (self_ntrees self) (self_n_individuals self) g")
    from init_population_invalid [OF ip] that have "\<exists>ind \<in> set pop0. \<not> valid ind"
      by (cases pop0) auto
    then have "fst (my_eaSimple G (evaluate self E x_train x_dot_train time_rec_obs) pop0
        (self_cxpb self) (self_mutpb self) (self_ngen self) (self_ntrees self) stats [] g1) =
        ([], Inl ?e)"
      by (rule my_eaSimple_raises [OF ev])
    then obtain g2 where "my_eaSimple G (evaluate self E x_train x_dot_train time_rec_obs) pop0
        (self_cxpb self) (self_mutpb self) (self_ngen self) (self_ntrees self) stats [] g1 =
        (([], Inl ?e), g2)"
      by (metis prod.collapse)
    then show ?thesis
      by (simp add: fit_def ip)
  qed
  have ea: "fst (my_eaSimple G (evaluate self E x_train x_dot_train time_rec_obs) pop cxpb mutpb
      ngen ntrees stats hof g) = ([], Inl ?e)" if "\<exists>ind \<in> set pop. \<not> valid ind"
    using ev that by (rule my_eaSimple_raises)
  show ?thesis
    using evalSymbReg_too_short [OF assms] ea fit by simp
qed

theorem short_training_data_aborts_witness:
  "length x2 < 3
   \<and> evalSymbReg sample_services [leaf] 1 2 x2 None TNone False (Some 0.8) ''n_zero_nodes'' =
       ([], Inl (ValueError ''x_train shall have at least 3 timepounts!''))
   \<and> (\<exists>ind \<in> set [\<lparr>trees = [leaf], wvalues = []\<rparr>]. \<not> valid ind)
   \<and> fst (my_eaSimple sample_ops (evaluate sample_self sample_services x2 None TNone)
            [\<lparr>trees = [leaf], wvalues = []\<rparr>] 0.7 0.8 1 1 (None :: (individual list \<Rightarrow> error + unit) option)
            [] (const_rng 0)) =
       ([], Inl (ValueError ''x_train shall have at least 3 timepounts!''))
   \<and> 0 < self_n_individuals sample_self
   \<and> fst (fit sample_self sample_ops sample_services
            (None :: (individual list \<Rightarrow> error + unit) option) x2 None TNone (const_rng 0)) =
       ([], Inl (ValueError ''x_train shall have at least 3 timepounts!''))"
  using short_training_data_aborts [where x_train = x2 and E = sample_services
      and individual = "[leaf]" and ntrees = 1 and max_depth = 2 and x_dot_train = None
      and time_rec_obs = TNone and flag = False and tr = "Some 0.8" and sp = "''n_zero_nodes''"
      and pop = "[\<lparr>trees = [leaf], wvalues = []\<rparr>]" and G = sample_ops and self = sample_self
      and cxpb = "0.7" and mutpb = "0.8" and ngen = 1
      and stats = "None :: (individual list \<Rightarrow> error + unit) option" and hof = "[]"
      and g = "const_rng 0"]
  by (simp add: x2_def valid_def sample_self_def)


subsection \<open>Scoring a prediction\<close>




subsection \<open>The names of the argument slots\<close>

lemma str_nat_nonempty: "str_nat n \<noteq> []"
  by (subst str_nat.simps) simp

lemma digit_inj: "a < 10 \<Longrightarrow> b < 10 \<Longrightarrow> digit a = digit b \<Longrightarrow> a = b"
proof -
  assume "a < 10" "b < 10" "digit a = digit b"
  moreover have "a \<in> {0,1,2,3,4,5,6,7,8,9}" using \<open>a < 10\<close> by auto
  moreover have "b \<in> {0,1,2,3,4,5,6,7,8,9}" using \<open>b < 10\<close> by auto
  ultimately show ?thesis by (auto simp: digit_def)
qed

lemma str_nat_inj: "str_nat m = str_nat n \<Longrightarrow> m = n"
proof (induction m arbitrary: n rule: str_nat.induct)
  case (1 m)
  show ?case
  proof (cases "m < 10")
    case True
    then have m: "str_nat m = [digit m]" by (subst str_nat.simps) simp
    show ?thesis
    proof (cases "n < 10")
      case True
      then have "str_nat n = [digit n]" by (subst str_nat.simps) simp
      with m "1.prems" \<open>m < 10\<close> True show ?thesis by (simp add: digit_inj)
    next
      case False
      then have "str_nat n = str_nat (n div 10) @ [digit (n mod 10)]"
        by (subst str_nat.simps) simp
      with m "1.prems" str_nat_nonempty [of "n div 10"] show ?thesis
        by (cases "str_nat (n div 10)") auto
    qed
  next
    case False
    then have m: "str_nat m = str_nat (m div 10) @ [digit (m mod 10)]"
      by (subst str_nat.simps) simp
    show ?thesis
    proof (cases "n < 10")
      case True
      then have "str_nat n = [digit n]" by (subst str_nat.simps) simp
      with m "1.prems" str_nat_nonempty [of "m div 10"] show ?thesis
        by (cases "str_nat (m div 10)") auto
    next
      case nf: False
      then have "str_nat n = str_nat (n div 10) @ [digit (n mod 10)]"
        by (subst str_nat.simps) simp
      with m "1.prems" have a: "str_nat (m div 10) = str_nat (n div 10)"
        and b: "digit (m mod 10) = digit (n mod 10)"
        by auto
      from "1.IH" [OF False a] have "m div 10 = n div 10" .
      moreover from b have "m mod 10 = n mod 10" by (intro digit_inj) auto
      ultimately show ?thesis by (metis div_mult_mod_eq)
    qed
  qed
qed

lemma ARG_inj [simp]: "ARG m = ARG n \<longleftrightarrow> m = n"
  by (auto simp: ARG_def dest: str_nat_inj)

lemma inj_ARG: "inj ARG"
  by (rule injI) simp

lemma inj_ARG_shift: "inj (\<lambda>i. ARG (i + d))"
  by (rule injI) simp

lemma x_name_0: "x_name 0 = ''x0''"
  by (simp add: x_name_def str_nat.simps digit_def)

lemma map_of_fold_update_other:
  "x \<notin> k ` set js \<Longrightarrow>
   map_of (fold (\<lambda>i a. AList.update (k i) (v i) a) js a0) x = map_of a0 x"
  by (induction js arbitrary: a0) (auto simp: update_conv')

lemma map_of_fold_update_key:
  "inj k \<Longrightarrow> j \<in> set js \<Longrightarrow>
   map_of (fold (\<lambda>i a. AList.update (k i) (v i) a) js a0) (k j) = Some (v j)"
proof (induction js arbitrary: a0)
  case Nil
  then show ?case by simp
next
  case (Cons i js)
  show ?case
  proof (cases "j \<in> set js")
    case True
    with Cons show ?thesis by simp
  next
    case False
    with Cons.prems have [simp]: "i = j" by simp
    from False Cons.prems(1) have "k j \<notin> k ` set js" by (auto dest: injD)
    then show ?thesis by (simp add: map_of_fold_update_other update_conv')
  qed
qed

lemma length_AList_update:
  "length (AList.update k v al) = (if k \<in> fst ` set al then length al else Suc (length al))"
  by (induction al) auto

lemma length_fold_update:
  "inj k \<Longrightarrow> distinct js \<Longrightarrow> k ` set js \<inter> fst ` set a0 = {} \<Longrightarrow>
   length (fold (\<lambda>i a. AList.update (k i) (v i) a) js a0) = length a0 + length js
   \<and> fst ` set (fold (\<lambda>i a. AList.update (k i) (v i) a) js a0) = fst ` set a0 \<union> k ` set js"
proof (induction js arbitrary: a0)
  case Nil
  then show ?case by simp
next
  case (Cons i js)
  from Cons.prems have fresh: "k i \<notin> fst ` set a0" by auto
  from Cons.prems have "k ` set js \<inter> fst ` set (AList.update (k i) (v i) a0) = {}"
    by (auto simp: dom_update dest: injD)
  with Cons.IH [of "AList.update (k i) (v i) a0"] Cons.prems fresh
  show ?case by (auto simp: length_AList_update dom_update)
qed

lemma argnames_dimensions_props:
  "length (argnames_dimensions d) = d"
  "fst ` set (argnames_dimensions d) = ARG ` {0..<d}"
  "j < d \<Longrightarrow> map_of (argnames_dimensions d) (ARG j) = Some (x_name j)"
  using length_fold_update [of ARG "[0..<d]" "[]" x_name]
    map_of_fold_update_key [of ARG j "[0..<d]" x_name "[]"]
  by (simp_all add: argnames_dimensions_def inj_ARG)

lemma argnames_constants_props:
  "length (argnames_constants nc d) = d + nc"
  "i < nc \<Longrightarrow> map_of (argnames_constants nc d) (ARG (d + i)) = Some (x_name i)"
  "j < d \<Longrightarrow> map_of (argnames_constants nc d) (ARG j) = Some (x_name j)"
proof -
  have disj: "(\<lambda>i. ARG (i + d)) ` set [0..<nc] \<inter> fst ` set (argnames_dimensions d) = {}"
    by (auto simp: argnames_dimensions_props)
  from length_fold_update [OF inj_ARG_shift _ disj, of x_name]
  show "length (argnames_constants nc d) = d + nc"
    by (simp add: argnames_constants_def argnames_dimensions_props)
  show "map_of (argnames_constants nc d) (ARG (d + i)) = Some (x_name i)" if "i < nc"
    using map_of_fold_update_key [OF inj_ARG_shift, of i "[0..<nc]" d x_name
        "argnames_dimensions d"] that
    by (simp add: argnames_constants_def add.commute)
  show "map_of (argnames_constants nc d) (ARG j) = Some (x_name j)" if "j < d"
  proof -
    from that have "ARG j \<notin> (\<lambda>i. ARG (i + d)) ` set [0..<nc]" by auto
    then show ?thesis
      by (simp add: argnames_constants_def map_of_fold_update_other
          argnames_dimensions_props that)
  qed
qed

lemma rename_args_lookup:
  "i < nc \<Longrightarrow> map_of (rename_args nc d t) (ARG (d + i)) = Some (x_name i)"
  "j < d \<Longrightarrow> map_of (rename_args nc d t) (ARG j) = Some (x_name j)"
  by (simp_all add: rename_args_def Let_def update_conv' argnames_constants_props)

text \<open>
  C9, as the code has it.  With at least one constant and at least one state variable, the
  constant slot \<open>ARG{dimensions+i}\<close> is named \<open>x{i}\<close> for every \<open>i < nc\<close>, which for
  \<open>i < dimensions\<close> is the name of the state-variable slot \<open>ARG{i}\<close>; the slots \<open>ARG0\<close>
  and \<open>ARG{dimensions}\<close> are different and both named \<open>x0\<close>, so the renaming is not
  injective.
\<close>

theorem rename_args_not_injective:
  assumes "1 \<le> nc" "1 \<le> dimensions"
  shows "(\<forall>i<nc. map_of (rename_args nc dimensions t) (ARG (dimensions + i)) = Some (x_name i))
     \<and> (\<forall>i<min nc dimensions. map_of (rename_args nc dimensions t) (ARG i) = Some (x_name i))
     \<and> map_of (rename_args nc dimensions t) (ARG 0) = Some ''x0''
     \<and> map_of (rename_args nc dimensions t) (ARG dimensions) = Some ''x0''
     \<and> ARG 0 \<noteq> ARG dimensions
     \<and> \<not> inj_on (map_of (rename_args nc dimensions t))
           (dom (map_of (rename_args nc dimensions t)))"
proof -
  let ?m = "map_of (rename_args nc dimensions t)"
  have a: "?m (ARG 0) = Some ''x0''"
    using rename_args_lookup(2) [of 0 dimensions nc t] assms by (simp add: x_name_0)
  have b: "?m (ARG dimensions) = Some ''x0''"
    using rename_args_lookup(1) [of 0 nc dimensions t] assms by (simp add: x_name_0)
  have c: "ARG 0 \<noteq> ARG dimensions" using assms by simp
  have "\<not> inj_on ?m (dom ?m)"
  proof
    assume "inj_on ?m (dom ?m)"
    moreover from a b have "ARG 0 \<in> dom ?m" "ARG dimensions \<in> dom ?m"
      "?m (ARG 0) = ?m (ARG dimensions)"
      by auto
    ultimately have "ARG 0 = ARG dimensions" unfolding inj_on_def by blast
    with c show False by simp
  qed
  with a b c show ?thesis
    by (simp add: rename_args_lookup)
qed

lemma rename_args_1_2:
  "rename_args 1 2 True =
     [(''ARG0'', ''x0''), (''ARG1'', ''x1''), (''ARG2'', ''x0''), (''ARG3'', ''t'')]"
  by code_simp

theorem rename_args_not_injective_witness:
  "(1::nat) \<le> 1 \<and> (1::nat) \<le> 2
   \<and> rename_args 1 2 True =
       [(''ARG0'', ''x0''), (''ARG1'', ''x1''), (''ARG2'', ''x0''), (''ARG3'', ''t'')]
   \<and> map_of (rename_args 1 2 True) (ARG 0) = Some ''x0''
   \<and> map_of (rename_args 1 2 True) (ARG 2) = Some ''x0''
   \<and> \<not> inj_on (map_of (rename_args 1 2 True)) (dom (map_of (rename_args 1 2 True)))"
proof -
  have h: "(1::nat) \<le> 1" "(1::nat) \<le> 2" by simp_all
  from rename_args_not_injective [OF h, of True]
  have "map_of (rename_args 1 2 True) (ARG 0) = Some ''x0''"
    and "map_of (rename_args 1 2 True) (ARG 2) = Some ''x0''"
    and "\<not> inj_on (map_of (rename_args 1 2 True)) (dom (map_of (rename_args 1 2 True)))"
    by blast+
  with h rename_args_1_2 show ?thesis by blast
qed

text \<open>
  C9 as stated fails without a state variable, where the constant is the only slot and the
  names are distinct, and with more constants than state variables, where the constant slot
  \<open>ARG2\<close> gets the name \<open>x1\<close> that no state-variable slot has.
\<close>

theorem rename_args_injective_without_dimensions:
  "rename_args 1 0 False = [(''ARG0'', ''x0'')]
   \<and> distinct (map snd (rename_args 1 0 False))
   \<and> rename_args 2 1 False = [(''ARG0'', ''x0''), (''ARG1'', ''x0''), (''ARG2'', ''x1'')]"
  by code_simp

subsection \<open>The evaluator: split, score and penalty\<close>

lemma py_int_nonneg: "0 \<le> r \<Longrightarrow> py_int r = \<lfloor>r\<rfloor>"
  by (simp add: py_int_def)

lemma split_nonneg:
  assumes "0 \<le> ratio"
  shows "split x ratio = (train_part ratio x, test_part ratio x)"
proof -
  have "0 \<le> ratio * real (length x)" using assms by simp
  then have "py_int (ratio * real (length x)) = \<lfloor>ratio * real (length x)\<rfloor>"
    and "0 \<le> \<lfloor>ratio * real (length x)\<rfloor>"
    by (simp_all add: py_int_nonneg)
  then show ?thesis
    by (simp add: split_def slice_bound_def min_def train_part_def test_part_def)
qed

lemma split_opt_nonneg:
  "0 \<le> ratio \<Longrightarrow>
   split_opt xd ratio = (map_option (train_part ratio) xd, map_option (test_part ratio) xd)"
  by (cases xd) (simp_all add: split_opt_def split_nonneg)

lemma split_time_nonneg:
  "0 \<le> ratio \<Longrightarrow> \<not> is_float t \<Longrightarrow>
   split_time t ratio = ret (time_part (train_part ratio) t, time_part (test_part ratio) t)"
  by (cases t) (simp_all add: split_time_def split_nonneg time_part_def is_float_def)

lemma fit_and_score_split:
  assumes "0 \<le> ratio" "\<not> is_float t"
  shows "fit_and_score E model x xd t (Some ratio) =
     bind (fit_sindy_model E model (train_part ratio x) (map_option (train_part ratio) xd)
             (time_part (train_part ratio) t))
       (\<lambda>m. score_sindy_model E m (test_part ratio x) (time_part (test_part ratio) t)
             (map_option (test_part ratio) xd))"
  using assms
  by (simp add: fit_and_score_def split_nonneg split_opt_nonneg split_time_nonneg comp_defs)

lemma fit_and_score_step:
  "fit_and_score E model x xd (TStep dt) (Some ratio) =
     ([], Inl (TypeError ''object of type float has no len()''))"
  by (simp add: fit_and_score_def split_time_def comp_defs split: prod.splits)

lemma compile_trees_length:
  "compile_trees E individual js = (cs, Inr fs) \<Longrightarrow> \<forall>i \<in> set js. i < length individual"
proof (induction js arbitrary: cs fs)
  case Nil
  then show ?case by simp
next
  case (Cons i js)
  then show ?case
    by (auto simp: comp_defs split: if_splits sum.splits prod.splits)
qed

lemma create_sindy_model_length:
  "create_sindy_model E individual ntrees = (cs, Inr model) \<Longrightarrow> ntrees \<le> length individual"
proof -
  assume a: "create_sindy_model E individual ntrees = (cs, Inr model)"
  then obtain cs' fs where "compile_trees E individual [0..<ntrees] = (cs', Inr fs)"
    by (auto simp: create_sindy_model_def comp_defs split: sum.splits prod.splits)
  from compile_trees_length [OF this] show ?thesis
    by (cases ntrees) auto
qed

lemma count_nodes_sum:
  assumes "\<forall>i \<in> set js. i < length ind_coefs \<and> i < length individual"
  shows "count_nodes ind_coefs individual js n =
     Inr (n + sum_list (map (\<lambda>i. if \<forall>c \<in> set (ind_coefs ! i). c = 0 then 0
                                  else len (individual ! i)) js))"
  using assms
  by (induction js arbitrary: n) (auto simp: list_all_iff)

lemma np_split_length: "np_split a n = Inr chunks \<Longrightarrow> length chunks = n \<and> 0 < n"
  by (auto simp: np_split_def split: if_splits)

lemma sparsity_penalty_spec:
  assumes "np_split (concat (transpose (coefficients E model))) ntrees = Inr ind_coefs"
    and "ntrees \<le> length individual"
  shows "sparsity_penalty E model individual ntrees max_depth =
     ([Coefficients], Inr (penalty_spec ind_coefs individual ntrees max_depth))"
proof -
  from np_split_length [OF assms(1)] assms(2)
  have "\<forall>i \<in> set [0..<ntrees]. i < length ind_coefs \<and> i < length individual" by auto
  from count_nodes_sum [OF this, of 0] show ?thesis
    by (simp add: sparsity_penalty_def assms(1) comp_defs penalty_spec_def retained_nodes_def)
qed

lemma evalSymbReg_unfold:
  assumes "3 \<le> length x" "create_sindy_model E ind ntrees = (cs0, Inr model0)"
    "fit_and_score E model0 x xd t tr = (cs1, Inr (model, s))"
  shows "evalSymbReg E ind ntrees md x xd t flag tr sp =
     (if sp = ''n_zero_nodes''
      then (case sparsity_penalty E model ind ntrees md of
              (cs2, Inl e) \<Rightarrow> (cs0 @ cs1 @ cs2, Inl e)
            | (cs2, Inr p) \<Rightarrow>
                (cs0 @ cs1 @ cs2, Inr (if flag then Model model else Fitness [s - p])))
      else (cs0 @ cs1, Inr (if flag then Model model else Fitness [s])))"
  using assms
  by (auto simp: evalSymbReg_def validate_input_def comp_defs split: sum.splits prod.splits)

lemma penalty_denominator: "0 < ntrees \<Longrightarrow> 0 < power_int (2::real) k * real ntrees"
  by simp

lemma fit_and_score_result:
  assumes "fit_and_score E model0 x xd t tr = (cs1, Inr (model, s))"
  shows "\<exists>xt tt xdt xs ts xds. cs1 = [Fit xt tt xdt, Score xs ts xds]
     \<and> fit_model E model0 xt tt xdt = Inr model \<and> score_model E model xs ts xds = Inr s"
  using assms
  by (auto simp: fit_and_score_def fit_sindy_model_def score_sindy_model_def split_time_def
      comp_defs split: option.splits prod.splits sum.splits time_arg.splits)

lemma sparsity_penalty_nonneg:
  assumes "sparsity_penalty E model individual ntrees max_depth = (cs, Inr p)"
  shows "0 \<le> p \<and> cs = [Coefficients]"
  using assms
  by (auto simp: sparsity_penalty_def comp_defs split: sum.splits prod.splits)

lemma fitness_gt_single:
  "wvalues a = set_values FitnessMax_weights [fa] \<Longrightarrow>
   wvalues b = set_values FitnessMax_weights [fb] \<Longrightarrow> fitness_gt a b \<longleftrightarrow> fb < fa"
  by (auto simp: fitness_gt_def set_values_def FitnessMax_weights_def)



lemma sample_create_2:
  "create_sindy_model sample_services [leaf, tall] 2 =
     ([Compile leaf, Compile tall, Construct], Inr [])"
  by code_simp

lemma zero_create_2:
  "create_sindy_model zero_services [leaf, tall] 2 =
     ([Compile leaf, Compile tall, Construct], Inr [])"
  by code_simp

lemma sample_fit_and_score:
  "fit_and_score sample_services [] x10 None TNone (Some 0.8) =
     ([Fit [[0], [1], [2], [3], [4], [5], [6], [7]] TNone None, Score [[8], [9]] TNone None], Inr ([[0], [1], [2], [3], [4], [5], [6], [7]], 2))"
  by code_simp

lemma zero_fit_and_score:
  "fit_and_score zero_services [] x10 None TNone (Some 0.8) =
     ([Fit [[0], [1], [2], [3], [4], [5], [6], [7]] TNone None, Score [[8], [9]] TNone None], Inr ([[0], [1], [2], [3], [4], [5], [6], [7]], 2))"
  by code_simp

lemma sample_np_split:
  "np_split (concat (transpose (coefficients sample_services [[0], [1], [2], [3], [4], [5], [6], [7]]))) 2 = Inr [[1], [0]]"
  by code_simp

lemma zero_np_split:
  "np_split (concat (transpose (coefficients zero_services [[0], [1], [2], [3], [4], [5], [6], [7]]))) 2 = Inr [[0], [0]]"
  by code_simp

lemma sample_sparsity_penalty:
  "sparsity_penalty sample_services [[0], [1], [2], [3], [4], [5], [6], [7]] [leaf, tall] 2 2 = ([Coefficients], Inr (1/16))"
  by code_simp

lemma sample_penalties:
  "penalty_spec [[1], [0]] [leaf, tall] 2 2 = 1/16"
  "penalty_spec [[1], [1]] [leaf, tall] 2 2 = 5/16"
  "penalty_spec [[0], [0]] [leaf, tall] 2 2 = 0"
  "retained_nodes [[1], [0]] [leaf, tall] 2 = 1"
  "retained_nodes [[1], [1]] [leaf, tall] 2 = 5"
  by code_simp+



text \<open>
  C2.  When the model has been created, fitted and scored with score \<open>s\<close> (the value that
  \<open>model.score\<close> returned in the last call), the evaluator returns \<open>[s]\<close>, and in mode
  \<open>"n_zero_nodes"\<close> \<open>[s - p]\<close> with the penalty \<open>p \<ge> 0\<close>: the score is not negated.  The
  weights of \<open>FitnessMax\<close> are \<open>(1.0,)\<close>, so the stored value is the fitness itself, one
  fitness is greater than another exactly when its value is greater, and the tournament
  and the hall of fame keep the individual of greater value.
\<close>

theorem fitness_is_score_minus_penalty:
  assumes "3 \<le> length x_train"
    and "create_sindy_model E individual ntrees = (cs0, Inr model0)"
    and "fit_and_score E model0 x_train x_dot_train time_rec_obs tr = (cs1, Inr (model, s))"
  shows "(\<exists>x t xd. score_model E model x t xd = Inr s \<and> last cs1 = Score x t xd)
     \<and> (sp \<noteq> ''n_zero_nodes'' \<longrightarrow>
          evalSymbReg E individual ntrees max_depth x_train x_dot_train time_rec_obs False tr sp =
            (cs0 @ cs1, Inr (Fitness [s])))
     \<and> (sparsity_penalty E model individual ntrees max_depth = (cs2, Inr p) \<longrightarrow>
          0 \<le> p \<and>
          evalSymbReg E individual ntrees max_depth x_train x_dot_train time_rec_obs False tr
            ''n_zero_nodes'' = (cs0 @ cs1 @ cs2, Inr (Fitness [s - p])))
     \<and> set_values FitnessMax_weights [f] = [f]
     \<and> (wvalues a = set_values FitnessMax_weights [fa] \<and>
        wvalues b = set_values FitnessMax_weights [fb] \<longrightarrow>
          (fitness_gt a b \<longleftrightarrow> fb < fa)
        \<and> wvalues (tournament a b) = [max fa fb]
        \<and> map wvalues (halloffame_update [a] [b]) = [[max fa fb]])"
proof -
  from fit_and_score_result [OF assms(3)]
  have 1: "\<exists>x t xd. score_model E model x t xd = Inr s \<and> last cs1 = Score x t xd"
    by auto
  have 2: "evalSymbReg E individual ntrees max_depth x_train x_dot_train time_rec_obs False tr sp =
      (cs0 @ cs1, Inr (Fitness [s]))" if "sp \<noteq> ''n_zero_nodes''"
    using evalSymbReg_unfold [OF assms, of max_depth False sp] that by simp
  have 3: "0 \<le> p \<and> evalSymbReg E individual ntrees max_depth x_train x_dot_train time_rec_obs
      False tr ''n_zero_nodes'' = (cs0 @ cs1 @ cs2, Inr (Fitness [s - p]))"
    if "sparsity_penalty E model individual ntrees max_depth = (cs2, Inr p)"
    using evalSymbReg_unfold [OF assms, of max_depth False "''n_zero_nodes''"] that
      sparsity_penalty_nonneg [OF that] by simp
  have 4: "set_values FitnessMax_weights [f] = [f]"
    by (simp add: set_values_def FitnessMax_weights_def)
  have 5: "(fitness_gt a b \<longleftrightarrow> fb < fa) \<and> wvalues (tournament a b) = [max fa fb]
        \<and> map wvalues (halloffame_update [a] [b]) = [[max fa fb]]"
    if "wvalues a = set_values FitnessMax_weights [fa] \<and>
        wvalues b = set_values FitnessMax_weights [fb]"
    using that fitness_gt_single [of a fa b fb] fitness_gt_single [of b fb a fa]
    by (auto simp: tournament_def set_values_def FitnessMax_weights_def max_def)
  from 1 2 3 4 5 show ?thesis by blast
qed


theorem fitness_is_score_minus_penalty_witness:
  "3 \<le> length x10
   \<and> create_sindy_model sample_services [leaf, tall] 2 =
       ([Compile leaf, Compile tall, Construct], Inr [])
   \<and> fit_and_score sample_services [] x10 None TNone (Some 0.8) =
       ([Fit [[0], [1], [2], [3], [4], [5], [6], [7]] TNone None, Score [[8], [9]] TNone None], Inr ([[0], [1], [2], [3], [4], [5], [6], [7]], 2))
   \<and> sparsity_penalty sample_services [[0], [1], [2], [3], [4], [5], [6], [7]] [leaf, tall] 2 2 = ([Coefficients], Inr (1/16))
   \<and> evalSymbReg sample_services [leaf, tall] 2 2 x10 None TNone False (Some 0.8) ''n_nodes'' =
       ([Compile leaf, Compile tall, Construct, Fit [[0], [1], [2], [3], [4], [5], [6], [7]] TNone None,
         Score [[8], [9]] TNone None], Inr (Fitness [2]))
   \<and> evalSymbReg sample_services [leaf, tall] 2 2 x10 None TNone False (Some 0.8)
         ''n_zero_nodes'' =
       ([Compile leaf, Compile tall, Construct, Fit [[0], [1], [2], [3], [4], [5], [6], [7]] TNone None,
         Score [[8], [9]] TNone None, Coefficients], Inr (Fitness [2 - 1/16]))
   \<and> fitness_gt \<lparr>trees = [tall], wvalues = [3]\<rparr> \<lparr>trees = [leaf], wvalues = [2]\<rparr>
   \<and> wvalues (tournament \<lparr>trees = [leaf], wvalues = [2]\<rparr> \<lparr>trees = [tall], wvalues = [3]\<rparr>) = [3]
   \<and> map wvalues (halloffame_update [\<lparr>trees = [leaf], wvalues = [2]\<rparr>]
                     [\<lparr>trees = [tall], wvalues = [3]\<rparr>]) = [[3]]"
proof -
  have h1: "3 \<le> length x10" by (simp add: x10_def)
  have w: "set_values FitnessMax_weights [w] = [w]" for w
    by (simp add: set_values_def FitnessMax_weights_def)
  note t = fitness_is_score_minus_penalty [OF h1 sample_create_2 sample_fit_and_score,
      where sp = "''n_nodes''" and ?cs2.0 = "[Coefficients]" and p = "1/16" and max_depth = 2
      and a = "\<lparr>trees = [leaf], wvalues = [2]\<rparr>" and fa = 2
      and b = "\<lparr>trees = [tall], wvalues = [3]\<rparr>" and fb = 3]
  from t have a: "evalSymbReg sample_services [leaf, tall] 2 2 x10 None TNone False (Some 0.8)
      ''n_nodes'' = ([Compile leaf, Compile tall, Construct] @ [Fit [[0], [1], [2], [3], [4], [5], [6], [7]] TNone None,
         Score [[8], [9]] TNone None], Inr (Fitness [2]))"
    by simp
  from t sample_sparsity_penalty
  have b: "evalSymbReg sample_services [leaf, tall] 2 2 x10 None TNone False (Some 0.8)
      ''n_zero_nodes'' = ([Compile leaf, Compile tall, Construct] @ [Fit [[0], [1], [2], [3], [4], [5], [6], [7]] TNone None,
         Score [[8], [9]] TNone None] @ [Coefficients], Inr (Fitness [2 - 1/16]))"
    by blast
  from t have c:
    "wvalues (tournament \<lparr>trees = [leaf], wvalues = [2]\<rparr> \<lparr>trees = [tall], wvalues = [3]\<rparr>) = [3]
     \<and> map wvalues (halloffame_update [\<lparr>trees = [leaf], wvalues = [2]\<rparr>]
                     [\<lparr>trees = [tall], wvalues = [3]\<rparr>]) = [[3]]"
    by (simp add: w)
  have d: "fitness_gt \<lparr>trees = [tall], wvalues = [3]\<rparr> \<lparr>trees = [leaf], wvalues = [2]\<rparr>"
    by (simp add: fitness_gt_def)
  from h1 sample_create_2 sample_fit_and_score sample_sparsity_penalty a b c d
  show ?thesis by simp
qed

text \<open>
  C5.  In mode \<open>"n_zero_nodes"\<close>, when the model has been created, fitted and scored with
  score \<open>s\<close> and the flattened transposed coefficient matrix divides into \<open>ntrees\<close>
  sections, the fitness is \<open>s\<close> minus the penalty of the spec: the sum over the subtrees of
  0 where the section of the subtree is all zero and of the node count of the subtree
  otherwise, divided by \<open>2^(1+max_depth) * ntrees\<close>.  The penalty is 0 when every section
  is all zero, and with the score fixed the fitness is strictly smaller when the retained
  node count is greater.
\<close>

theorem sparsity_penalty_n_zero_nodes:
  assumes "3 \<le> length x_train"
    and "create_sindy_model E individual ntrees = (cs0, Inr model0)"
    and "fit_and_score E model0 x_train x_dot_train time_rec_obs tr = (cs1, Inr (model, s))"
    and "np_split (concat (transpose (coefficients E model))) ntrees = Inr ind_coefs"
  shows "evalSymbReg E individual ntrees max_depth x_train x_dot_train time_rec_obs False tr
           ''n_zero_nodes'' =
           (cs0 @ cs1 @ [Coefficients],
            Inr (Fitness [s - penalty_spec ind_coefs individual ntrees max_depth]))
     \<and> (0 \<le> max_depth \<longrightarrow> penalty_spec ind_coefs individual ntrees max_depth =
           real (retained_nodes ind_coefs individual ntrees) / (2 ^ nat (1 + max_depth) * real ntrees))
     \<and> ((\<forall>i<ntrees. \<forall>c \<in> set (ind_coefs ! i). c = 0) \<longrightarrow>
           penalty_spec ind_coefs individual ntrees max_depth = 0)
     \<and> (retained_nodes ind_coefs individual ntrees < retained_nodes ind_coefs' individual' ntrees \<longrightarrow>
           s - penalty_spec ind_coefs' individual' ntrees max_depth
             < s - penalty_spec ind_coefs individual ntrees max_depth)"
proof -
  from create_sindy_model_length [OF assms(2)] have le: "ntrees \<le> length individual" .
  from np_split_length [OF assms(4)] have pos: "0 < ntrees" by simp
  have 1: "evalSymbReg E individual ntrees max_depth x_train x_dot_train time_rec_obs False tr
           ''n_zero_nodes'' =
           (cs0 @ cs1 @ [Coefficients],
            Inr (Fitness [s - penalty_spec ind_coefs individual ntrees max_depth]))"
    using evalSymbReg_unfold [OF assms(1-3), of max_depth False "''n_zero_nodes''"]
      sparsity_penalty_spec [OF assms(4) le, of max_depth] by simp
  have 2: "penalty_spec ind_coefs individual ntrees max_depth =
      real (retained_nodes ind_coefs individual ntrees) / (2 ^ nat (1 + max_depth) * real ntrees)"
    if "0 \<le> max_depth"
    using that by (simp add: penalty_spec_def power_int_def)
  have 3: "penalty_spec ind_coefs individual ntrees max_depth = 0"
    if "\<forall>i<ntrees. \<forall>c \<in> set (ind_coefs ! i). c = 0"
  proof -
    from that have "retained_nodes ind_coefs individual ntrees = 0"
      by (simp add: retained_nodes_def)
    then show ?thesis by (simp add: penalty_spec_def)
  qed
  have 4: "s - penalty_spec ind_coefs' individual' ntrees max_depth
             < s - penalty_spec ind_coefs individual ntrees max_depth"
    if "retained_nodes ind_coefs individual ntrees < retained_nodes ind_coefs' individual' ntrees"
    using that penalty_denominator [OF pos, of "1 + max_depth"]
    by (simp add: penalty_spec_def divide_strict_right_mono)
  from 1 2 3 4 show ?thesis by blast
qed


theorem sparsity_penalty_n_zero_nodes_witness:
  "3 \<le> length x10
   \<and> create_sindy_model sample_services [leaf, tall] 2 =
       ([Compile leaf, Compile tall, Construct], Inr [])
   \<and> fit_and_score sample_services [] x10 None TNone (Some 0.8) =
       ([Fit [[0], [1], [2], [3], [4], [5], [6], [7]] TNone None, Score [[8], [9]] TNone None], Inr ([[0], [1], [2], [3], [4], [5], [6], [7]], 2))
   \<and> np_split (concat (transpose (coefficients sample_services [[0], [1], [2], [3], [4], [5], [6], [7]]))) 2 = Inr [[1], [0]]
   \<and> evalSymbReg sample_services [leaf, tall] 2 2 x10 None TNone False (Some 0.8)
         ''n_zero_nodes'' =
       ([Compile leaf, Compile tall, Construct, Fit [[0], [1], [2], [3], [4], [5], [6], [7]] TNone None,
         Score [[8], [9]] TNone None, Coefficients], Inr (Fitness [2 - 1/16]))
   \<and> retained_nodes [[1], [0]] [leaf, tall] 2 < retained_nodes [[1], [1]] [leaf, tall] 2
   \<and> 2 - penalty_spec [[1], [1]] [leaf, tall] 2 2 < (2::real) - penalty_spec [[1], [0]] [leaf, tall] 2 2
   \<and> np_split (concat (transpose (coefficients zero_services [[0], [1], [2], [3], [4], [5], [6], [7]]))) 2 = Inr [[0], [0]]
   \<and> evalSymbReg zero_services [leaf, tall] 2 2 x10 None TNone False (Some 0.8)
         ''n_zero_nodes'' =
       ([Compile leaf, Compile tall, Construct, Fit [[0], [1], [2], [3], [4], [5], [6], [7]] TNone None,
         Score [[8], [9]] TNone None, Coefficients], Inr (Fitness [2]))"
proof -
  have h1: "3 \<le> length x10" by (simp add: x10_def)
  note t = sparsity_penalty_n_zero_nodes [OF h1 sample_create_2 sample_fit_and_score
      sample_np_split, where max_depth = 2 and ind_coefs' = "[[1], [1]]"
      and individual' = "[leaf, tall]"]
  note z = sparsity_penalty_n_zero_nodes [OF h1 zero_create_2 zero_fit_and_score
      zero_np_split, where max_depth = 2 and ind_coefs' = "[[1], [1]]"
      and individual' = "[leaf, tall]"]
  from t have a: "evalSymbReg sample_services [leaf, tall] 2 2 x10 None TNone False (Some 0.8)
         ''n_zero_nodes'' =
       ([Compile leaf, Compile tall, Construct, Fit [[0], [1], [2], [3], [4], [5], [6], [7]] TNone None,
         Score [[8], [9]] TNone None, Coefficients], Inr (Fitness [2 - 1/16]))"
    by (simp add: sample_penalties)
  have r: "retained_nodes [[1], [0]] [leaf, tall] 2 < retained_nodes [[1], [1]] [leaf, tall] 2"
    by (simp add: sample_penalties)
  with t have b: "2 - penalty_spec [[1], [1]] [leaf, tall] 2 2
      < (2::real) - penalty_spec [[1], [0]] [leaf, tall] 2 2"
    by blast
  from z have c: "evalSymbReg zero_services [leaf, tall] 2 2 x10 None TNone False (Some 0.8)
         ''n_zero_nodes'' =
       ([Compile leaf, Compile tall, Construct, Fit [[0], [1], [2], [3], [4], [5], [6], [7]] TNone None,
         Score [[8], [9]] TNone None, Coefficients], Inr (Fitness [2]))"
    by (simp add: sample_penalties)
  from h1 sample_create_2 sample_fit_and_score sample_np_split zero_np_split a r b c
  show ?thesis by blast
qed





subsection \<open>Variation and re-evaluation\<close>

lemma variation_inv_refl: "variation_inv st st"
  by (simp add: variation_inv_def)

lemma variation_inv_trans:
  assumes "variation_inv st st1" "variation_inv st1 st2"
  shows "variation_inv st st2"
  unfolding variation_inv_def
proof (intro conjI allI ballI impI)
  show "length (fst st2) = length (fst st)"
    using assms by (simp add: variation_inv_def)
  show "set (snd st) \<subseteq> set (snd st2)"
    using assms unfolding variation_inv_def by blast
  show "\<not> valid (fst st2 ! i)" if "i < length (fst st)" "\<not> valid (fst st ! i)" for i
    using assms that unfolding variation_inv_def by metis
  show "i \<in> set (snd st) \<or> i < length (fst st) \<and> \<not> valid (fst st2 ! i)"
    if "i \<in> set (snd st2)" for i
    using assms that unfolding variation_inv_def by metis
  show "fst st2 ! i = fst st ! i" if "i < length (fst st)" "i \<notin> set (snd st2)" for i
  proof -
    from assms(2) that(2) have "i \<notin> set (snd st1)" unfolding variation_inv_def by blast
    with assms that show ?thesis unfolding variation_inv_def by metis
  qed
qed

lemma variation_inv_touch:
  "i < length offspring \<Longrightarrow>
   variation_inv (offspring, touched)
     (offspring[i := del_fitness_values ind], i # touched)"
  by (auto simp: variation_inv_def del_fitness_values_def valid_def nth_list_update)

lemma variation_inv_touch2:
  assumes "j < length offspring" "i < length offspring"
  shows "variation_inv (offspring, touched)
     (offspring[j := del_fitness_values ind1, i := del_fitness_values ind2], i # j # touched)"
proof -
  from assms(2) have "i < length (offspring[j := del_fitness_values ind1])" by simp
  then have "variation_inv (offspring[j := del_fitness_values ind1], j # touched)
      (offspring[j := del_fitness_values ind1, i := del_fitness_values ind2], i # j # touched)"
    by (rule variation_inv_touch)
  with variation_inv_touch [OF assms(1), of touched ind1] show ?thesis
    by (rule variation_inv_trans)
qed

lemma cx_loop_inv:
  "cx_loop G cxpb ntrees js st g = (Inr st', g') \<Longrightarrow> \<forall>i \<in> set js. i < length (fst st) \<Longrightarrow>
   variation_inv st st'"
proof (induction js arbitrary: st g)
  case Nil
  then show ?case by (simp add: variation_inv_refl)
next
  case (Cons i js)
  obtain offspring touched where st: "st = (offspring, touched)" by (cases st)
  show ?case
  proof (cases "fst (random g) < cxpb")
    case False
    with Cons.prems st have "cx_loop G cxpb ntrees js st (snd (random g)) = (Inr st', g')"
      by (simp add: case_prod_unfold)
    then show ?thesis using Cons.prems(2) by (intro Cons.IH) auto
  next
    case True
    with Cons.prems st obtain new1 new2 h g3 where
      "cx_loop G cxpb ntrees js
         (offspring[i - 1 := del_fitness_values (set_tree (offspring ! (i - 1)) h new1),
                    i := del_fitness_values (set_tree (offspring ! i) h new2)],
          i # (i - 1) # touched) g3 = (Inr st', g')"
      by (auto simp: case_prod_unfold Let_def split: sum.splits if_splits)
    moreover from Cons.prems(2) st have i: "i - 1 < length offspring" "i < length offspring"
      by auto
    ultimately have "variation_inv
         (offspring[i - 1 := del_fitness_values (set_tree (offspring ! (i - 1)) h new1),
                    i := del_fitness_values (set_tree (offspring ! i) h new2)],
          i # (i - 1) # touched) st'"
      using Cons.prems(2) st by (intro Cons.IH) auto
    with variation_inv_touch2 [OF i] st show ?thesis
      using variation_inv_trans by blast
  qed
qed

lemma mut_loop_inv:
  "mut_loop G mutpb ps st g = (Inr st', g') \<Longrightarrow> \<forall>p \<in> set ps. fst p < length (fst st) \<Longrightarrow>
   variation_inv st st'"
proof (induction ps arbitrary: st g)
  case Nil
  then show ?case by (simp add: variation_inv_refl)
next
  case (Cons p ps)
  obtain offspring touched where st: "st = (offspring, touched)" by (cases st)
  obtain i h where p: "p = (i, h)" by (cases p)
  show ?case
  proof (cases "fst (random g) < mutpb")
    case False
    with Cons.prems st p have "mut_loop G mutpb ps st (snd (random g)) = (Inr st', g')"
      by (simp add: case_prod_unfold)
    then show ?thesis using Cons.prems(2) by (intro Cons.IH) auto
  next
    case True
    with Cons.prems st p obtain new g2 where
      "mut_loop G mutpb ps
         (offspring[i := del_fitness_values (set_tree (offspring ! i) h new)], i # touched) g2 =
       (Inr st', g')"
      by (auto simp: case_prod_unfold Let_def split: sum.splits if_splits)
    moreover from Cons.prems(2) st p have i: "i < length offspring" by auto
    ultimately have "variation_inv
         (offspring[i := del_fitness_values (set_tree (offspring ! i) h new)], i # touched) st'"
      using Cons.prems(2) st by (intro Cons.IH) auto
    with variation_inv_touch [OF i] st show ?thesis
      using variation_inv_trans by blast
  qed
qed

lemma my_varAnd_inv:
  assumes "my_varAnd G cxpb mutpb ntrees population g = (Inr (offspring, touched), g')"
  shows "variation_inv (population, []) (offspring, touched)"
proof -
  from assms obtain st1 g1 where
    1: "cx_loop G cxpb ntrees (filter odd [0..<length population]) (population, []) g = (Inr st1, g1)"
    and 2: "mut_loop G mutpb (List.product [0..<length population] [0..<ntrees]) st1 g1 =
      (Inr (offspring, touched), g')"
    by (auto simp: my_varAnd_def split: prod.splits sum.splits)
  have a: "variation_inv (population, []) st1"
    using 1 by (rule cx_loop_inv) auto
  then have "length (fst st1) = length population" by (simp add: variation_inv_def)
  then have b: "variation_inv st1 (offspring, touched)"
    using 2 by (intro mut_loop_inv) auto
  from a b show ?thesis by (rule variation_inv_trans)
qed

lemma evaluate_invalid_result:
  "evaluate_invalid ev offspring = (cs, Inr evaluated) \<Longrightarrow>
   cs = concat (map (\<lambda>ind. fst (ev (trees ind))) (filter (\<lambda>ind. \<not> valid ind) offspring))
   \<and> list_all2 (\<lambda>ind ind'. if valid ind then ind' = ind
        else \<exists>vals. snd (ev (trees ind)) = Inr (Fitness vals)
               \<and> ind' = ind\<lparr>wvalues := set_values FitnessMax_weights vals\<rparr>)
       offspring evaluated"
proof (induction offspring arbitrary: cs evaluated)
  case Nil
  then show ?case by (simp add: comp_defs)
next
  case (Cons ind inds)
  show ?case
  proof (cases "valid ind")
    case True
    with Cons.prems obtain rest where r: "evaluate_invalid ev inds = (cs, Inr rest)"
      and e: "evaluated = ind # rest"
      by (auto simp: comp_defs split: prod.splits sum.splits)
    from Cons.IH [OF r] True e show ?thesis by simp
  next
    case False
    with Cons.prems obtain cs1 cs2 vals rest where
      a: "ev (trees ind) = (cs1, Inr (Fitness vals))"
      and r: "evaluate_invalid ev inds = (cs2, Inr rest)"
      and c: "cs = cs1 @ cs2"
      and e: "evaluated = ind\<lparr>wvalues := set_values FitnessMax_weights vals\<rparr> # rest"
      by (auto simp: comp_defs split: prod.splits sum.splits eval_result.splits)
    from Cons.IH [OF r] False a c e show ?thesis by simp
  qed
qed

lemma compile_stats_calls:
  "compile_stats stats pop = (cs, r) \<Longrightarrow> cs = []"
  by (auto simp: compile_stats_def comp_defs split: option.splits sum.splits)

lemma evaluate_then_stats:
  assumes "bind (evaluate_invalid ev offspring) (\<lambda>evaluated.
             bind (compile_stats stats evaluated) (\<lambda>rec. ret (evaluated, rec))) =
           (cs, Inr (evaluated, rec))"
  shows "evaluate_invalid ev offspring = (cs, Inr evaluated)"
  using assms
  by (auto simp: compile_stats_def comp_defs split: option.splits sum.splits prod.splits)

lemma generations_one:
  assumes "fst (generations G ev cxpb mutpb ntrees stats [gen] (pop, logbook, halloffame) g0) =
      (cs, Inr (pop', logbook', halloffame'))"
  shows "\<exists>selected g1 varied touched g2 rec.
      selTournament pop (length pop) g0 = (Inr selected, g1)
      \<and> my_varAnd G cxpb mutpb ntrees selected g1 = (Inr (varied, touched), g2)
      \<and> evaluate_invalid ev varied = (cs, Inr pop')
      \<and> logbook' = logbook @ [(gen, nevals varied, rec)]
      \<and> halloffame' = halloffame_update halloffame pop'"
proof -
  obtain r1 g1 where s: "selTournament pop (length pop) g0 = (r1, g1)"
    by (cases "selTournament pop (length pop) g0")
  with assms obtain selected where r1: "r1 = Inr selected"
    by (cases r1) (auto simp: comp_defs)
  obtain r2 g2 where v: "my_varAnd G cxpb mutpb ntrees selected g1 = (r2, g2)"
    by (cases "my_varAnd G cxpb mutpb ntrees selected g1")
  with assms s r1 obtain varied touched where r2: "r2 = Inr (varied, touched)"
    by (cases r2) (auto simp: comp_defs)
  obtain cs3 r3 where e: "bind (evaluate_invalid ev varied) (\<lambda>evaluated.
             bind (compile_stats stats evaluated) (\<lambda>rec. ret (evaluated, rec))) = (cs3, r3)"
    by (cases "bind (evaluate_invalid ev varied) (\<lambda>evaluated.
             bind (compile_stats stats evaluated) (\<lambda>rec. ret (evaluated, rec)))")
  with assms s r1 v r2 obtain evaluated rec where r3: "r3 = Inr (evaluated, rec)"
    by (cases r3) (auto simp: comp_defs)
  from assms s r1 v r2 e r3 have "cs = cs3" "pop' = evaluated"
    "logbook' = logbook @ [(gen, nevals varied, rec)]"
    "halloffame' = halloffame_update halloffame evaluated"
    by (auto simp: ret_def)
  with evaluate_then_stats [OF e [unfolded r3]] s r1 v r2 show ?thesis by blast
qed


lemma sample_my_varAnd:
  "fst (my_varAnd sample_ops 0.7 0.8 1 [ind_a, ind_b] (list_rng [0.9, 0.9, 0.1, 0.2])) =
     Inr ([ind_a, ind_m], [1])"
  by code_simp

lemma sample_evaluate_invalid:
  "evaluate_invalid (evaluate sample_self sample_services x10 None TNone) [ind_a, ind_m] =
     ([Compile (Node ''sin'' [leaf]), Construct, Fit [[0], [1], [2], [3], [4], [5], [6], [7]] TNone None,
       Score [[8], [9]] TNone None],
      Inr [ind_a, ind_m\<lparr>wvalues := [2]\<rparr>])"
  by code_simp

lemma sample_generations:
  "fst (generations sample_ops (evaluate sample_self sample_services x10 None TNone) 0.7 0.8 1
          (None :: (individual list \<Rightarrow> error + unit) option) [1] ([ind_a, ind_b], [], [])
          (list_rng [0.1, 0.6, 0.6, 0.1, 0.9, 0.9, 0.1, 0.2])) =
     ([Compile (Node ''sin'' [leaf]), Construct, Fit [[0], [1], [2], [3], [4], [5], [6], [7]] TNone None,
       Score [[8], [9]] TNone None],
      Inr ([ind_b, ind_m\<lparr>wvalues := [2]\<rparr>], [(1, 1, None)], [ind_b]))"
  by code_simp

text \<open>
  C6.  After \<open>_my_varAnd\<close> every individual at which a \<open>del ... .fitness.values\<close> was
  reached (the individuals that crossover or mutation touched) has an invalid fitness, and
  every other individual is the selected one, unchanged.  The evaluation phase calls the
  evaluator on the individuals with an invalid fitness, once each and in their order (the
  calls made are those of these evaluations), stores each result in its individual and
  leaves the individuals with a valid fitness as they are.  In a generation the selection
  is followed by the variation and by this evaluation of the varied individuals, whose
  number of evaluations is the number of invalid individuals, before the loop goes on.
\<close>

theorem variation_invalidates_evaluation_covers:
  "(fst (my_varAnd G cxpb mutpb ntrees population g) = Inr (offspring, touched) \<longrightarrow>
      length offspring = length population
      \<and> (\<forall>i \<in> set touched. i < length offspring \<and> \<not> valid (offspring ! i))
      \<and> (\<forall>i<length offspring. i \<notin> set touched \<longrightarrow> offspring ! i = population ! i))
   \<and> (evaluate_invalid ev offspring = (cs, Inr evaluated) \<longrightarrow>
      length evaluated = length offspring
      \<and> cs = concat (map (\<lambda>ind. fst (ev (trees ind))) (filter (\<lambda>ind. \<not> valid ind) offspring))
      \<and> (\<forall>i<length offspring.
           if valid (offspring ! i) then evaluated ! i = offspring ! i
           else \<exists>vals. snd (ev (trees (offspring ! i))) = Inr (Fitness vals)
                  \<and> evaluated ! i = (offspring ! i)\<lparr>wvalues := set_values FitnessMax_weights vals\<rparr>))
   \<and> (fst (generations G ev cxpb mutpb ntrees stats [gen] (pop, logbook, halloffame) g0) =
         (cs', Inr (pop', logbook', halloffame')) \<longrightarrow>
       (\<exists>selected g1 varied touched' g2 rec.
          selTournament pop (length pop) g0 = (Inr selected, g1)
          \<and> my_varAnd G cxpb mutpb ntrees selected g1 = (Inr (varied, touched'), g2)
          \<and> evaluate_invalid ev varied = (cs', Inr pop')
          \<and> logbook' = logbook @ [(gen, nevals varied, rec)]
          \<and> nevals varied = length (filter (\<lambda>ind. \<not> valid ind) varied)
          \<and> halloffame' = halloffame_update halloffame pop'))"
proof (intro conjI impI)
  assume a: "fst (my_varAnd G cxpb mutpb ntrees population g) = Inr (offspring, touched)"
  then have "my_varAnd G cxpb mutpb ntrees population g =
      (Inr (offspring, touched), snd (my_varAnd G cxpb mutpb ntrees population g))"
    by (metis prod.collapse)
  from my_varAnd_inv [OF this]
  have inv: "variation_inv (population, []) (offspring, touched)" .
  show "length offspring = length population"
    using inv by (simp add: variation_inv_def)
  show "\<forall>i \<in> set touched. i < length offspring \<and> \<not> valid (offspring ! i)"
    using inv by (auto simp: variation_inv_def)
  show "\<forall>i<length offspring. i \<notin> set touched \<longrightarrow> offspring ! i = population ! i"
    using inv by (simp add: variation_inv_def)
next
  assume "evaluate_invalid ev offspring = (cs, Inr evaluated)"
  note r = evaluate_invalid_result [OF this]
  show "length evaluated = length offspring"
    using r by (auto dest: list_all2_lengthD)
  show "cs = concat (map (\<lambda>ind. fst (ev (trees ind))) (filter (\<lambda>ind. \<not> valid ind) offspring))"
    using r by simp
  show "\<forall>i<length offspring.
           if valid (offspring ! i) then evaluated ! i = offspring ! i
           else \<exists>vals. snd (ev (trees (offspring ! i))) = Inr (Fitness vals)
                  \<and> evaluated ! i = (offspring ! i)\<lparr>wvalues := set_values FitnessMax_weights vals\<rparr>"
    using r by (simp add: list_all2_conv_all_nth)
next
  assume "fst (generations G ev cxpb mutpb ntrees stats [gen] (pop, logbook, halloffame) g0) =
         (cs', Inr (pop', logbook', halloffame'))"
  from generations_one [OF this]
  show "\<exists>selected g1 varied touched' g2 rec.
          selTournament pop (length pop) g0 = (Inr selected, g1)
          \<and> my_varAnd G cxpb mutpb ntrees selected g1 = (Inr (varied, touched'), g2)
          \<and> evaluate_invalid ev varied = (cs', Inr pop')
          \<and> logbook' = logbook @ [(gen, nevals varied, rec)]
          \<and> nevals varied = length (filter (\<lambda>ind. \<not> valid ind) varied)
          \<and> halloffame' = halloffame_update halloffame pop'"
    by (simp add: nevals_def)
qed


theorem variation_invalidates_evaluation_covers_witness:
  "fst (my_varAnd sample_ops 0.7 0.8 1 [ind_a, ind_b] (list_rng [0.9, 0.9, 0.1, 0.2])) =
     Inr ([ind_a, ind_m], [1])
   \<and> \<not> valid ([ind_a, ind_m] ! 1) \<and> [ind_a, ind_m] ! 0 = [ind_a, ind_b] ! 0
   \<and> evaluate_invalid (evaluate sample_self sample_services x10 None TNone) [ind_a, ind_m] =
       ([Compile (Node ''sin'' [leaf]), Construct, Fit [[0], [1], [2], [3], [4], [5], [6], [7]] TNone None,
         Score [[8], [9]] TNone None],
        Inr [ind_a, ind_m\<lparr>wvalues := [2]\<rparr>])
   \<and> [Compile (Node ''sin'' [leaf]), Construct, Fit [[0], [1], [2], [3], [4], [5], [6], [7]] TNone None,
       Score [[8], [9]] TNone None] =
      concat (map (\<lambda>ind. fst (evaluate sample_self sample_services x10 None TNone (trees ind)))
                (filter (\<lambda>ind. \<not> valid ind) [ind_a, ind_m]))
   \<and> fst (generations sample_ops (evaluate sample_self sample_services x10 None TNone) 0.7 0.8 1
          (None :: (individual list \<Rightarrow> error + unit) option) [1] ([ind_a, ind_b], [], [])
          (list_rng [0.1, 0.6, 0.6, 0.1, 0.9, 0.9, 0.1, 0.2])) =
       ([Compile (Node ''sin'' [leaf]), Construct, Fit [[0], [1], [2], [3], [4], [5], [6], [7]] TNone None,
         Score [[8], [9]] TNone None],
        Inr ([ind_b, ind_m\<lparr>wvalues := [2]\<rparr>], [(1, 1, None)], [ind_b]))
   \<and> (\<exists>varied. evaluate_invalid (evaluate sample_self sample_services x10 None TNone) varied =
         ([Compile (Node ''sin'' [leaf]), Construct, Fit [[0], [1], [2], [3], [4], [5], [6], [7]] TNone None,
           Score [[8], [9]] TNone None],
          Inr [ind_b, ind_m\<lparr>wvalues := [2]\<rparr>])
        \<and> nevals varied = 1)"
proof -
  note t = variation_invalidates_evaluation_covers [where G = sample_ops and cxpb = "0.7"
      and mutpb = "0.8" and ntrees = 1 and population = "[ind_a, ind_b]"
      and g = "list_rng [0.9, 0.9, 0.1, 0.2]" and offspring = "[ind_a, ind_m]"
      and touched = "[1]" and ev = "evaluate sample_self sample_services x10 None TNone"
      and cs = "[Compile (Node ''sin'' [leaf]), Construct, Fit [[0], [1], [2], [3], [4], [5], [6], [7]] TNone None,
         Score [[8], [9]] TNone None]"
      and evaluated = "[ind_a, ind_m\<lparr>wvalues := [2]\<rparr>]"
      and stats = "None :: (individual list \<Rightarrow> error + unit) option" and gen = 1
      and pop = "[ind_a, ind_b]" and logbook = "[]" and halloffame = "[]"
      and ?g0.0 = "list_rng [0.1, 0.6, 0.6, 0.1, 0.9, 0.9, 0.1, 0.2]"
      and cs' = "[Compile (Node ''sin'' [leaf]), Construct, Fit [[0], [1], [2], [3], [4], [5], [6], [7]] TNone None,
         Score [[8], [9]] TNone None]"
      and pop' = "[ind_b, ind_m\<lparr>wvalues := [2]\<rparr>]" and logbook' = "[(1, 1, None)]"
      and halloffame' = "[ind_b]"]
  note t1 = t [THEN conjunct1, THEN mp, OF sample_my_varAnd]
  note t2 = t [THEN conjunct2, THEN conjunct1, THEN mp, OF sample_evaluate_invalid]
  note t3 = t [THEN conjunct2, THEN conjunct2, THEN mp, OF sample_generations]
  from t1 have a: "\<not> valid ([ind_a, ind_m] ! 1) \<and> [ind_a, ind_m] ! 0 = [ind_a, ind_b] ! 0"
    by simp
  from t2
  have b: "[Compile (Node ''sin'' [leaf]), Construct, Fit [[0], [1], [2], [3], [4], [5], [6], [7]] TNone None,
       Score [[8], [9]] TNone None] =
      concat (map (\<lambda>ind. fst (evaluate sample_self sample_services x10 None TNone (trees ind)))
                (filter (\<lambda>ind. \<not> valid ind) [ind_a, ind_m]))"
    by (rule conjunct2 [THEN conjunct1])
  from t3 obtain varied rec where
    v: "evaluate_invalid (evaluate sample_self sample_services x10 None TNone) varied =
         ([Compile (Node ''sin'' [leaf]), Construct, Fit [[0], [1], [2], [3], [4], [5], [6], [7]] TNone None,
           Score [[8], [9]] TNone None],
          Inr [ind_b, ind_m\<lparr>wvalues := [2]\<rparr>])"
    and l: "[(1::nat, 1::nat, None :: unit option)] = [] @ [(1, nevals varied, rec)]"
    by blast
  from l have "nevals varied = 1" by simp
  with v
  have c: "\<exists>varied. evaluate_invalid (evaluate sample_self sample_services x10 None TNone) varied =
         ([Compile (Node ''sin'' [leaf]), Construct, Fit [[0], [1], [2], [3], [4], [5], [6], [7]] TNone None,
           Score [[8], [9]] TNone None],
          Inr [ind_b, ind_m\<lparr>wvalues := [2]\<rparr>])
        \<and> nevals varied = 1"
    by blast
  show ?thesis
    by (intro conjI) (fact sample_my_varAnd, fact a [THEN conjunct1], fact a [THEN conjunct2],
        fact sample_evaluate_invalid, fact b, fact sample_generations, fact c)
qed

subsection \<open>The final model\<close>

lemma compile_trees_calls:
  "compile_trees E individual js = (cs, r) \<Longrightarrow> \<forall>c \<in> set cs. \<exists>t. c = Compile t"
proof (induction js arbitrary: cs r)
  case Nil
  then show ?case by (simp add: comp_defs)
next
  case (Cons i js)
  then show ?case
    by (fastforce simp: comp_defs split: if_splits sum.splits prod.splits)
qed

lemma create_sindy_model_calls:
  assumes "create_sindy_model E individual ntrees = (cs, r)"
  shows "\<forall>c \<in> set cs. (\<exists>t. c = Compile t) \<or> c = Construct"
proof -
  obtain cs1 r1 where c: "compile_trees E individual [0..<ntrees] = (cs1, r1)"
    by (cases "compile_trees E individual [0..<ntrees]")
  from compile_trees_calls [OF c] assms c show ?thesis
    by (cases r1) (auto simp: create_sindy_model_def comp_defs)
qed

lemma evalSymbReg_model:
  assumes "evalSymbReg E ind n md x xd t True (Some ratio) sp = (cs, Inr res)" "0 \<le> ratio"
  shows "\<exists>cs0 model0 m cs_pen.
      create_sindy_model E ind n = (cs0, Inr model0)
      \<and> fit_model E model0 (train_part ratio x) (time_part (train_part ratio) t)
            (map_option (train_part ratio) xd) = Inr m
      \<and> res = Model m
      \<and> cs = cs0 @ Fit (train_part ratio x) (time_part (train_part ratio) t)
                      (map_option (train_part ratio) xd)
                  # Score (test_part ratio x) (time_part (test_part ratio) t)
                      (map_option (test_part ratio) xd) # cs_pen
      \<and> (cs_pen = [] \<or> cs_pen = [Coefficients])"
proof -
  from assms(1) have len: "3 \<le> length x"
    by (auto simp: evalSymbReg_def validate_input_def comp_defs split: if_splits)
  from assms(1) len obtain cs0 model0 where c: "create_sindy_model E ind n = (cs0, Inr model0)"
    by (cases "create_sindy_model E ind n")
      (auto simp: evalSymbReg_def validate_input_def comp_defs split: sum.splits)
  from assms(1) len c obtain cs1 model s where
    f: "fit_and_score E model0 x xd t (Some ratio) = (cs1, Inr (model, s))"
    by (cases "fit_and_score E model0 x xd t (Some ratio)")
      (auto simp: evalSymbReg_def validate_input_def comp_defs split: sum.splits)
  have nf: "\<not> is_float t"
  proof
    assume "is_float t"
    then obtain dt where "t = TStep dt" by (cases t) (auto simp: is_float_def)
    with f show False by (simp add: fit_and_score_step)
  qed
  from f fit_and_score_split [OF assms(2) nf, of E model0 x xd]
  have m: "fit_model E model0 (train_part ratio x) (time_part (train_part ratio) t)
            (map_option (train_part ratio) xd) = Inr model"
    and cs1: "cs1 = [Fit (train_part ratio x) (time_part (train_part ratio) t)
                      (map_option (train_part ratio) xd),
                  Score (test_part ratio x) (time_part (test_part ratio) t)
                      (map_option (test_part ratio) xd)]"
    by (auto simp: fit_sindy_model_def score_sindy_model_def comp_defs split: sum.splits)
  from evalSymbReg_unfold [OF len c f, of md True sp] assms(1)
  have "res = Model model \<and> (cs = cs0 @ cs1 \<or> cs = cs0 @ cs1 @ [Coefficients])"
    by (auto split: if_splits prod.splits sum.splits dest: sparsity_penalty_nonneg)
  with c m cs1 show ?thesis by auto
qed


lemma sample_fit:
  "fst (fit sample_self sample_ops sample_services
          (None :: (individual list \<Rightarrow> error + unit) option) x10 None TNone (const_rng 0)) =
     ([Compile leaf, Construct, Fit [[0], [1], [2], [3], [4], [5], [6], [7]] TNone None, Score [[8], [9]] TNone None,
       Compile leaf, Construct, Fit [[0], [1], [2], [3], [4], [5], [6], [7]] TNone None, Score [[8], [9]] TNone None],
      Inr \<lparr>fitted_population = [\<lparr>trees = [leaf], wvalues = [2]\<rparr>],
           fitted_log = [(0, 1, None)],
           fitted_hof = [\<lparr>trees = [leaf], wvalues = [2]\<rparr>],
           final_model = Model [[0], [1], [2], [3], [4], [5], [6], [7]]\<rparr>)"
  by code_simp

text \<open>
  C1, as the code has it.  When \<open>fit\<close> returns, the calls made are those of the
  generational loop followed by those of one more evaluation, of the best individual of the
  hall of fame with the return-model flag set; the final model is the model that this
  evaluation fitted.  The evaluation is registered with split ratio 0.8, as the in-loop
  one: its only fit is on the train part, the first \<open>floor(0.8 * n)\<close> samples, and it
  scores on the test part.
\<close>

theorem final_model_fitted_on_split:
  assumes "fst (fit self G E mstats x_train x_dot_train time_rec_obs g) = (cs, Inr result)"
  shows "\<exists>cs_loop cs_final best rest cs0 model0 m cs_pen.
      fst (my_eaSimple G (evaluate self E x_train x_dot_train time_rec_obs)
             (fst (init_population G 2 (self_ntrees self) (self_n_individuals self) g))
             (self_cxpb self) (self_mutpb self) (self_ngen self) (self_ntrees self) mstats []
             (snd (init_population G 2 (self_ntrees self) (self_n_individuals self) g))) =
        (cs_loop, Inr (fitted_population result, fitted_log result, fitted_hof result))
      \<and> fitted_hof result = best # rest
      \<and> cs = cs_loop @ cs_final
      \<and> evalSymbReg E (trees best) (self_ntrees self) 2 x_train x_dot_train time_rec_obs
            True (Some 0.8) (self_sparsity self) = (cs_final, Inr (final_model result))
      \<and> create_sindy_model E (trees best) (self_ntrees self) = (cs0, Inr model0)
      \<and> (\<forall>c \<in> set cs0. (\<exists>t. c = Compile t) \<or> c = Construct)
      \<and> fit_model E model0 (train_part 0.8 x_train) (time_part (train_part 0.8) time_rec_obs)
            (map_option (train_part 0.8) x_dot_train) = Inr m
      \<and> final_model result = Model m
      \<and> cs_final = cs0 @ Fit (train_part 0.8 x_train) (time_part (train_part 0.8) time_rec_obs)
                            (map_option (train_part 0.8) x_dot_train)
                        # Score (test_part 0.8 x_train) (time_part (test_part 0.8) time_rec_obs)
                            (map_option (test_part 0.8) x_dot_train) # cs_pen
      \<and> (cs_pen = [] \<or> cs_pen = [Coefficients])"
proof -
  let ?ip = "init_population G 2 (self_ntrees self) (self_n_individuals self) g"
  let ?ea = "my_eaSimple G (evaluate self E x_train x_dot_train time_rec_obs) (fst ?ip)
             (self_cxpb self) (self_mutpb self) (self_ngen self) (self_ntrees self) mstats []
             (snd ?ip)"
  obtain cs_loop r g2 where ea: "?ea = ((cs_loop, r), g2)"
    by (metis prod.collapse)
  with assms obtain pop logbook halloffame where r: "r = Inr (pop, logbook, halloffame)"
    by (cases r) (auto simp: fit_def case_prod_unfold)
  from assms ea r obtain best rest where h: "halloffame = best # rest"
    by (cases halloffame) (auto simp: fit_def case_prod_unfold comp_defs)
  obtain cs_final rf where
    rm: "retrieve_model self E x_train x_dot_train time_rec_obs (trees best) = (cs_final, rf)"
    by (cases "retrieve_model self E x_train x_dot_train time_rec_obs (trees best)")
  from assms ea r h rm obtain fm where rf: "rf = Inr fm"
    by (cases rf) (auto simp: fit_def case_prod_unfold comp_defs)
  from assms ea r h rm rf have res: "cs = cs_loop @ cs_final"
    "result = \<lparr>fitted_population = pop, fitted_log = logbook, fitted_hof = halloffame,
               final_model = fm\<rparr>"
    by (auto simp: fit_def case_prod_unfold comp_defs)
  from rm rf have ev: "evalSymbReg E (trees best) (self_ntrees self) 2 x_train x_dot_train
      time_rec_obs True (Some 0.8) (self_sparsity self) = (cs_final, Inr fm)"
    by (simp add: retrieve_model_def)
  from evalSymbReg_model [OF ev] obtain cs0 model0 m cs_pen where
    "create_sindy_model E (trees best) (self_ntrees self) = (cs0, Inr model0)"
    "fit_model E model0 (train_part 0.8 x_train) (time_part (train_part 0.8) time_rec_obs)
            (map_option (train_part 0.8) x_dot_train) = Inr m"
    "fm = Model m"
    "cs_final = cs0 @ Fit (train_part 0.8 x_train) (time_part (train_part 0.8) time_rec_obs)
                            (map_option (train_part 0.8) x_dot_train)
                        # Score (test_part 0.8 x_train) (time_part (test_part 0.8) time_rec_obs)
                            (map_option (test_part 0.8) x_dot_train) # cs_pen"
    "cs_pen = [] \<or> cs_pen = [Coefficients]"
    by auto
  with create_sindy_model_calls [of E "trees best" "self_ntrees self" cs0 "Inr model0"]
    ea r h res ev
  show ?thesis
    by (intro exI [of _ cs_loop] exI [of _ cs_final] exI [of _ best] exI [of _ rest]
        exI [of _ cs0] exI [of _ model0] exI [of _ m] exI [of _ cs_pen]) simp
qed


theorem final_model_fitted_on_split_witness:
  "fst (fit sample_self sample_ops sample_services
          (None :: (individual list \<Rightarrow> error + unit) option) x10 None TNone (const_rng 0)) =
     ([Compile leaf, Construct, Fit [[0], [1], [2], [3], [4], [5], [6], [7]] TNone None, Score [[8], [9]] TNone None,
       Compile leaf, Construct, Fit [[0], [1], [2], [3], [4], [5], [6], [7]] TNone None, Score [[8], [9]] TNone None],
      Inr \<lparr>fitted_population = [\<lparr>trees = [leaf], wvalues = [2]\<rparr>],
           fitted_log = [(0, 1, None)],
           fitted_hof = [\<lparr>trees = [leaf], wvalues = [2]\<rparr>],
           final_model = Model [[0], [1], [2], [3], [4], [5], [6], [7]]\<rparr>)
   \<and> (\<exists>model0. fit_model sample_services model0 (train_part 0.8 x10)
                   (time_part (train_part 0.8) TNone) (map_option (train_part 0.8) None) =
                 Inr [[0], [1], [2], [3], [4], [5], [6], [7]])"
proof -
  from final_model_fitted_on_split [OF sample_fit] obtain model0 m where
    f: "fit_model sample_services model0 (train_part 0.8 x10)
          (time_part (train_part 0.8) TNone) (map_option (train_part 0.8) None) = Inr m"
    and m: "final_model \<lparr>fitted_population = [\<lparr>trees = [leaf], wvalues = [2]\<rparr>],
           fitted_log = [(0::nat, 1::nat, None :: unit option)],
           fitted_hof = [\<lparr>trees = [leaf], wvalues = [2]\<rparr>],
           final_model = Model [[0], [1], [2], [3], [4], [5], [6], [7]]\<rparr> = Model m"
    by blast
  from m have "m = [[0], [1], [2], [3], [4], [5], [6], [7]]" by simp
  with f
  have "\<exists>model0. fit_model sample_services model0 (train_part 0.8 x10)
                   (time_part (train_part 0.8) TNone) (map_option (train_part 0.8) None) =
                 Inr [[0], [1], [2], [3], [4], [5], [6], [7]]"
    by blast
  with sample_fit show ?thesis by (intro conjI)
qed

text \<open>
  C1 as stated fails: with 10 training samples the final model is fitted on the first 8
  and scored on the last 2, not fitted on the entire training set.
\<close>

theorem final_model_not_on_entire_set:
  "map_sum id final_model
     (snd (fst (fit sample_self sample_ops sample_services
                  (None :: (individual list \<Rightarrow> error + unit) option) x10 None TNone
                  (const_rng 0)))) = Inr (Model [[0], [1], [2], [3], [4], [5], [6], [7]])
   \<and> fst (fst (fit sample_self sample_ops sample_services
                  (None :: (individual list \<Rightarrow> error + unit) option) x10 None TNone
                  (const_rng 0))) =
       [Compile leaf, Construct, Fit [[0], [1], [2], [3], [4], [5], [6], [7]] TNone None, Score [[8], [9]] TNone None,
        Compile leaf, Construct, Fit [[0], [1], [2], [3], [4], [5], [6], [7]] TNone None, Score [[8], [9]] TNone None]
   \<and> length x10 = 10"
  using sample_fit by (simp add: x10_def)

end
